theory Spec2Isabelle
  imports Complex_Main "HOL-Library.Multiset" "HOL-Library.AList"
begin

section \<open>Conventions of the embedding\<close>

text \<open>
  The TypeScript sources are embedded function by function. The clock
  (\<open>new Date()\<close>), the UUID generator and the file system are inputs of the
  functions that use them. The \<open>Tier\<close> union type is erased at run time (values are
  cast with \<open>as Tier\<close>), so a tier is a string.

  Numbers. Priorities, thresholds of counts, durations and token counts are integers
  (\<open>int\<close>, \<open>nat\<close>) of magnitude below \<open>2^53\<close>, where the arithmetic of JavaScript
  numbers is exact. Monetary amounts and percentages are binary64 numbers: a finite
  one is the \<open>real\<close> it denotes, comparisons are those of the reals, and every
  arithmetic operation rounds its exact result to the nearest binary64 number, ties
  to even (\<open>fl\<close>). NaN, the infinities and results beyond the largest finite
  binary64 number are outside the model.

  Objects used as dictionaries. A plain object keeps its own properties in
  creation order, enumerates those whose key is an array index first, in numeric
  order, and answers a read of a key it does not own with the member of that name
  inherited from \<open>Object.prototype\<close>, if there is one.

  Strings. A character is a code unit below 256; \<open>toLowerCase\<close> and the white
  space of \<open>trim\<close> are those of that range.
\<close>

subsection \<open>Strings\<close>

definition lower_char :: "char \<Rightarrow> char" where
  "lower_char c =
     (let n = (of_char c :: nat)
      in if (65 \<le> n \<and> n \<le> 90) \<or> (192 \<le> n \<and> n \<le> 222 \<and> n \<noteq> 215)
         then char_of (n + 32) else c)"

definition toLowerCase :: "string \<Rightarrow> string" where
  "toLowerCase s = map lower_char s"

fun startsWith :: "string \<Rightarrow> string \<Rightarrow> bool" where
  "startsWith s [] = True"
| "startsWith [] (p # ps) = False"
| "startsWith (c # cs) (p # ps) = (c = p \<and> startsWith cs ps)"

text \<open>\<open>s.includes(p)\<close>: \<open>p\<close> occurs in \<open>s\<close> as a contiguous substring.\<close>

fun str_includes :: "string \<Rightarrow> string \<Rightarrow> bool" where
  "str_includes [] p = (p = [])"
| "str_includes (c # cs) p = (startsWith (c # cs) p \<or> str_includes cs p)"

subsection \<open>Binary64 numbers\<close>

definition pow2 :: "int \<Rightarrow> real" where
  "pow2 e = (if 0 \<le> e then 2 ^ nat e else 1 / 2 ^ nat (- e))"

text \<open>For \<open>x > 0\<close>, the exponent \<open>e\<close> with \<open>2^e \<le> x < 2^(e+1)\<close>.\<close>

function ilog2 :: "real \<Rightarrow> int" where
  "ilog2 x = (if x \<le> 0 then 0
              else if x < 1 then ilog2 (2 * x) - 1
              else if 2 \<le> x then ilog2 (x / 2) + 1
              else 0)"
  by pat_completeness auto
termination
proof (relation "measure (\<lambda>x. if x < 1 then nat \<lceil>1 / x\<rceil> else nat \<lfloor>x\<rfloor>)")
  show "wf (measure (\<lambda>x::real. if x < 1 then nat \<lceil>1 / x\<rceil> else nat \<lfloor>x\<rfloor>))" by simp
next
  fix x :: real
  assume a: "\<not> x \<le> 0" "x < 1"
  show "(2 * x, x) \<in> measure (\<lambda>x. if x < 1 then nat \<lceil>1 / x\<rceil> else nat \<lfloor>x\<rfloor>)"
  proof (cases "2 * x < 1")
    case True
    have "1 / (2 * x) + 1 \<le> 1 / x" using a True by (simp add: field_simps)
    then have "\<lceil>1 / (2 * x) + 1\<rceil> \<le> \<lceil>1 / x\<rceil>" by (rule ceiling_mono)
    then have "\<lceil>1 / (2 * x)\<rceil> < \<lceil>1 / x\<rceil>" by simp
    moreover have "0 < \<lceil>1 / x\<rceil>" using a by (simp add: field_simps)
    ultimately show ?thesis using True a by simp
  next
    case False
    then have "1 \<le> 2 * x" "2 * x < 2" using a by auto
    then have f: "\<lfloor>2 * x\<rfloor> = 1" by linarith
    have "1 < 1 / x" using a by (simp add: field_simps)
    then have "1 < \<lceil>1 / x\<rceil>" by linarith
    with f False a show ?thesis by simp
  qed
next
  fix x :: real
  assume a: "\<not> x \<le> 0" "\<not> x < 1" "2 \<le> x"
  have "x / 2 + 1 \<le> x" using a by simp
  then have "\<lfloor>x / 2\<rfloor> < \<lfloor>x\<rfloor>" by linarith
  moreover have "0 < \<lfloor>x\<rfloor>" using a by linarith
  ultimately show "(x / 2, x) \<in> measure (\<lambda>x. if x < 1 then nat \<lceil>1 / x\<rceil> else nat \<lfloor>x\<rfloor>)"
    using a by simp
qed

declare ilog2.simps [simp del]

definition round_half_even :: "real \<Rightarrow> int" where
  "round_half_even y =
     (let n = \<lfloor>y\<rfloor>; d = y - of_int n
      in if d < 1 / 2 then n else if 1 / 2 < d then n + 1 else if even n then n else n + 1)"

text \<open>
  The binary64 number nearest to \<open>x\<close>: 53 significant bits, the least exponent
  \<open>-1022\<close> (below it the spacing stays \<open>2^(-1074)\<close>), ties to even.
\<close>

definition fl :: "real \<Rightarrow> real" where
  "fl x =
     (if x = 0 then 0
      else (let e = max (ilog2 \<bar>x\<bar>) (- 1022);
                u = pow2 (e - 52)
            in sgn x * of_int (round_half_even (\<bar>x\<bar> / u)) * u))"

text \<open>The operators \<open>+\<close>, \<open>-\<close>, \<open>*\<close> and \<open>/\<close> of JavaScript on numbers.\<close>

definition fadd :: "real \<Rightarrow> real \<Rightarrow> real" where
  "fadd x y = fl (x + y)"

definition fsub :: "real \<Rightarrow> real \<Rightarrow> real" where
  "fsub x y = fl (x - y)"

definition fmul :: "real \<Rightarrow> real \<Rightarrow> real" where
  "fmul x y = fl (x * y)"

definition fdiv :: "real \<Rightarrow> real \<Rightarrow> real" where
  "fdiv x y = fl (x / y)"

subsection \<open>Plain objects as dictionaries\<close>

text \<open>The members every plain object inherits from \<open>Object.prototype\<close>. All are
  functions but \<open>__proto__\<close>, an accessor whose setter ignores a value that is not an
  object.\<close>

definition inherited_members :: "string list" where
  "inherited_members =
     [''constructor'', ''toString'', ''toLocaleString'', ''valueOf'', ''hasOwnProperty'',
      ''isPrototypeOf'', ''propertyIsEnumerable'', ''__proto__'', ''__defineGetter__'',
      ''__defineSetter__'', ''__lookupGetter__'', ''__lookupSetter__'']"

definition is_digit :: "char \<Rightarrow> bool" where
  "is_digit c = (48 \<le> (of_char c :: nat) \<and> (of_char c :: nat) \<le> 57)"

definition index_value :: "string \<Rightarrow> int" where
  "index_value s = foldl (\<lambda>n c. 10 * n + ((of_char c :: int) - 48)) 0 s"

text \<open>An array index is the canonical decimal text of an integer from 0 to
  \<open>2^32 - 2\<close>.\<close>

definition is_array_index :: "string \<Rightarrow> bool" where
  "is_array_index s =
     (s \<noteq> [] \<and> list_all is_digit s \<and> (s = ''0'' \<or> hd s \<noteq> CHR ''0'')
      \<and> length s \<le> 10 \<and> index_value s \<le> 4294967294)"

text \<open>\<open>Object.entries\<close> of the own properties \<open>al\<close>, given in creation order.\<close>

definition Object_entries :: "(string \<times> 'v) list \<Rightarrow> (string \<times> 'v) list" where
  "Object_entries al =
     sort_key (\<lambda>p. index_value (fst p)) (filter (\<lambda>p. is_array_index (fst p)) al)
     @ filter (\<lambda>p. \<not> is_array_index (fst p)) al"

section \<open>Rule engine (rules/rule-engine.ts)\<close>

type_synonym Tier = string

datatype StrategyType = TwoTier | ThreeTier

text \<open>
  The text of a reason is presentation; its structure is kept.
  \<open>MatchedPattern p n\<close> is \<open>Matched pattern "p" in n\<close>, \<open>ErrorsInWindow k w\<close> is
  \<open>k errors in last w minutes\<close>, \<open>SimpleTask\<close> is
  \<open>Simple task detected - using lowest cost tier\<close>, \<open>PreviousSimilar\<close> is
  \<open>Based on previous similar tasks\<close>.
\<close>

datatype MatchReason =
    MatchedPattern string string
  | ErrorsInWindow nat int
  | SimpleTask
  | PreviousSimilar

record RuleMatch =
  rule_name :: string
  matched_pattern :: "string option"
  target_tier :: string
  priority :: int
  reason :: MatchReason

record KeywordRule =
  kr_name :: string
  kr_patterns :: "string list"
  kr_target_tier :: "StrategyType \<Rightarrow> string option"
  kr_priority :: int

record ErrorEscalation =
  ee_enabled :: bool
  ee_threshold :: int
  ee_window_minutes :: int
  ee_action :: string

record CostOptimization =
  co_enabled :: bool
  co_simple_task_patterns :: "string list"
  co_action :: string

record RulesConfig =
  keyword_rules :: "KeywordRule list"
  error_escalation :: ErrorEscalation
  cost_optimization :: "CostOptimization option"

text \<open>
  The engine's state. \<open>errorWindow\<close> holds the error times in milliseconds. The
  memory tracker is the interface \<open>IMemoryTracker\<close>, one method
  \<open>getRecommendedTier\<close>; it is passed to \<open>classifyTask\<close> as an optional function.
\<close>

record RuleEngine =
  config :: "RulesConfig option"
  strategy :: StrategyType
  errorWindow :: "int list"

type_synonym IMemoryTracker = "string \<Rightarrow> string option"

definition cleanErrorWindow :: "RuleEngine \<Rightarrow> int \<Rightarrow> RuleEngine" where
  "cleanErrorWindow re now =
     (case config re of
        None \<Rightarrow> re
      | Some cfg \<Rightarrow>
          (let windowMs = ee_window_minutes (error_escalation cfg) * 60 * 1000;
               cutoff = now - windowMs
           in re\<lparr>errorWindow := filter (\<lambda>d. d > cutoff) (errorWindow re)\<rparr>))"

definition recordError :: "RuleEngine \<Rightarrow> int \<Rightarrow> RuleEngine" where
  "recordError re now =
     (case config re of
        None \<Rightarrow> re
      | Some cfg \<Rightarrow>
          if \<not> ee_enabled (error_escalation cfg) then re
          else cleanErrorWindow (re\<lparr>errorWindow := errorWindow re @ [now]\<rparr>) now)"

definition getEscalatedTier :: "StrategyType \<Rightarrow> Tier \<Rightarrow> string option" where
  "getEscalatedTier s currentTier =
     (case s of
        TwoTier \<Rightarrow> (if currentTier = ''primary'' then Some ''critical'' else None)
      | ThreeTier \<Rightarrow>
          (if currentTier = ''tier1'' then Some ''tier2''
           else if currentTier = ''tier2'' then Some ''tier3''
           else None))"

definition getAvailableTiers :: "StrategyType \<Rightarrow> Tier list" where
  "getAvailableTiers s =
     (if s = TwoTier then [''primary'', ''critical''] else [''tier1'', ''tier2'', ''tier3''])"

definition isValidTier :: "StrategyType \<Rightarrow> string \<Rightarrow> bool" where
  "isValidTier s tier = (tier \<in> set (getAvailableTiers s))"

definition getDefaultTier :: "StrategyType \<Rightarrow> Tier" where
  "getDefaultTier s = (if s = TwoTier then ''primary'' else ''tier1'')"

text \<open>The inner loop over a pattern list: the first pattern the lowered task includes.\<close>

fun first_included :: "string \<Rightarrow> string list \<Rightarrow> string option" where
  "first_included taskLower [] = None"
| "first_included taskLower (p # ps) =
     (if str_includes taskLower (toLowerCase p) then Some p
      else first_included taskLower ps)"

text \<open>One keyword rule: at most one match, and none when the rule has no (non-empty)
  target for the strategy.\<close>

definition keyword_match :: "StrategyType \<Rightarrow> string \<Rightarrow> KeywordRule \<Rightarrow> RuleMatch list" where
  "keyword_match s taskLower rule =
     (case first_included taskLower (kr_patterns rule) of
        None \<Rightarrow> []
      | Some pattern \<Rightarrow>
          (case kr_target_tier rule s of
             None \<Rightarrow> []
           | Some targetTier \<Rightarrow>
               if targetTier = [] then []
               else [\<lparr>rule_name = kr_name rule, matched_pattern = Some pattern,
                      target_tier = targetTier, priority = kr_priority rule,
                      reason = MatchedPattern pattern (kr_name rule)\<rparr>]))"

definition keyword_matches :: "StrategyType \<Rightarrow> string \<Rightarrow> KeywordRule list \<Rightarrow> RuleMatch list" where
  "keyword_matches s taskLower rules = concat (map (keyword_match s taskLower) rules)"

text \<open>Error escalation, on the window already cleaned.\<close>

definition escalation_match :: "RulesConfig \<Rightarrow> StrategyType \<Rightarrow> int list \<Rightarrow> Tier \<Rightarrow> RuleMatch list" where
  "escalation_match cfg s window currentTier =
     (if ee_enabled (error_escalation cfg)
         \<and> int (length window) \<ge> ee_threshold (error_escalation cfg)
      then (case getEscalatedTier s currentTier of
              None \<Rightarrow> []
            | Some escalatedTier \<Rightarrow>
                if escalatedTier = [] then []
                else [\<lparr>rule_name = ''error_escalation'', matched_pattern = None,
                       target_tier = escalatedTier, priority = 200,
                       reason = ErrorsInWindow (length window)
                                  (ee_window_minutes (error_escalation cfg))\<rparr>])
      else [])"

definition cost_match :: "RulesConfig \<Rightarrow> StrategyType \<Rightarrow> string \<Rightarrow> RuleMatch list" where
  "cost_match cfg s taskLower =
     (case cost_optimization cfg of
        None \<Rightarrow> []
      | Some co \<Rightarrow>
          if \<not> co_enabled co then []
          else (case first_included taskLower (co_simple_task_patterns co) of
                  None \<Rightarrow> []
                | Some pattern \<Rightarrow>
                    [\<lparr>rule_name = ''cost_optimization'', matched_pattern = Some pattern,
                      target_tier = (if s = TwoTier then ''primary'' else ''tier1''),
                      priority = 10, reason = SimpleTask\<rparr>]))"

definition memory_match :: "IMemoryTracker option \<Rightarrow> StrategyType \<Rightarrow> string \<Rightarrow> RuleMatch list" where
  "memory_match memoryTracker s task =
     (case memoryTracker of
        None \<Rightarrow> []
      | Some getRecommendedTier \<Rightarrow>
          (case getRecommendedTier task of
             None \<Rightarrow> []
           | Some memoryRecommendation \<Rightarrow>
               if memoryRecommendation \<noteq> [] \<and> isValidTier s memoryRecommendation
               then [\<lparr>rule_name = ''memory_based'', matched_pattern = None,
                      target_tier = memoryRecommendation, priority = 30,
                      reason = PreviousSimilar\<rparr>]
               else []))"

text \<open>\<open>matches.sort((a, b) => b.priority - a.priority)\<close>: a stable sort, highest
  priority first.\<close>

definition sort_by_priority :: "RuleMatch list \<Rightarrow> RuleMatch list" where
  "sort_by_priority ms = sort_key (\<lambda>m. - priority m) ms"

text \<open>The matches collected by \<open>classifyTask\<close>, in the order they are pushed.\<close>

definition collect_matches ::
  "RulesConfig \<Rightarrow> StrategyType \<Rightarrow> int list \<Rightarrow> IMemoryTracker option \<Rightarrow> string \<Rightarrow> Tier \<Rightarrow> RuleMatch list" where
  "collect_matches cfg s window memoryTracker task currentTier =
     (let taskLower = toLowerCase task;
          m1 = keyword_matches s taskLower (keyword_rules cfg);
          m2 = m1 @ escalation_match cfg s window currentTier;
          m3 = (if m2 = [] then m2 @ cost_match cfg s taskLower else m2);
          m4 = (if m3 = [] then m3 @ memory_match memoryTracker s task else m3)
      in m4)"

definition classifyTask ::
  "RuleEngine \<Rightarrow> IMemoryTracker option \<Rightarrow> string \<Rightarrow> Tier \<Rightarrow> int \<Rightarrow> RuleMatch option \<times> RuleEngine" where
  "classifyTask re memoryTracker task currentTier now =
     (case config re of
        None \<Rightarrow> (None, re)
      | Some cfg \<Rightarrow>
          (let re' = (if ee_enabled (error_escalation cfg) then cleanErrorWindow re now else re);
               matches = collect_matches cfg (strategy re) (errorWindow re') memoryTracker
                           task currentTier
           in (case sort_by_priority matches of
                 [] \<Rightarrow> (None, re')
               | m # _ \<Rightarrow> (Some m, re'))))"


section \<open>Cost tracker (tracking/cost-tracker.ts)\<close>

datatype error = FileOperationError

record TierTotals =
  cost :: real
  tokens :: int

record MonthlyUsage =
  total_cost :: real
  total_tokens :: int
  by_tier :: "(string \<times> TierTotals) list"
  by_model :: "(string \<times> TierTotals) list"

record UsageParams =
  provider :: string
  model :: string
  tier :: string
  input_tokens :: int
  output_tokens :: int
  cost_usd :: real
  task_summary :: "string option"

record UsageRecord = UsageParams +
  timestamp :: string

text \<open>
  \<open>getMonthKey\<close> renders the year and the month of a date as \<open>YYYY-MM\<close>. Different
  pairs give different keys, and no such key is an array index or the name of an
  inherited member, so the totals object is keyed by the pair.
\<close>

type_synonym MonthKey = "int \<times> nat"

record UsageData =
  records :: "UsageRecord list"
  monthly_totals :: "(MonthKey \<times> MonthlyUsage) list"

definition empty_usage :: UsageData where
  "empty_usage = \<lparr>records = [], monthly_totals = []\<rparr>"

text \<open>
  \<open>if (!obj[k]) obj[k] = {cost: 0, tokens: 0}\<close> followed by the two \<open>+=\<close> on
  \<open>obj[k]\<close>. When \<open>obj\<close> does not own \<open>k\<close> and \<open>k\<close> names an inherited member, the
  read finds that member: no own property is created and the two \<open>+=\<close> write to the
  member, not to \<open>obj\<close>.
\<close>

definition add_totals :: "string \<Rightarrow> real \<Rightarrow> int \<Rightarrow> (string \<times> TierTotals) list \<Rightarrow> (string \<times> TierTotals) list" where
  "add_totals k c n al =
     (case map_of al k of
        Some old \<Rightarrow> AList.update k \<lparr>cost = fadd (cost old) c, tokens = tokens old + n\<rparr> al
      | None \<Rightarrow>
          if k \<in> set inherited_members then al
          else al @ [(k, \<lparr>cost = fadd 0 c, tokens = 0 + n\<rparr>)])"

text \<open>
  \<open>CostTracker.record\<close>. \<open>ts\<close> is the time stamp and \<open>monthKey\<close> the month key the
  clock gives; \<open>save_ok\<close> says whether writing the file succeeds. The data in memory
  is updated before \<open>save\<close> runs, so it is updated also when \<open>save\<close> throws.
\<close>

definition CostTracker_record ::
  "UsageData \<Rightarrow> string \<Rightarrow> MonthKey \<Rightarrow> bool \<Rightarrow> UsageParams \<Rightarrow> UsageData \<times> (error + unit)" where
  "CostTracker_record d ts monthKey save_ok params =
     (let rec = UsageParams.extend params (UsageRecord.fields ts);
          n = input_tokens params + output_tokens params;
          monthly = (case map_of (monthly_totals d) monthKey of
                       None \<Rightarrow> \<lparr>total_cost = 0, total_tokens = 0, by_tier = [], by_model = []\<rparr>
                     | Some m \<Rightarrow> m);
          modelKey = provider params @ '':'' @ model params;
          monthly' = \<lparr>total_cost = fadd (total_cost monthly) (cost_usd params),
                      total_tokens = total_tokens monthly + n,
                      by_tier = add_totals (tier params) (cost_usd params) n (by_tier monthly),
                      by_model = add_totals modelKey (cost_usd params) n (by_model monthly)\<rparr>;
          d' = \<lparr>records = records d @ [rec],
                monthly_totals = AList.update monthKey monthly' (monthly_totals d)\<rparr>
      in (d', if save_ok then Inr () else Inl FileOperationError))"

definition getMonthlyUsage :: "UsageData \<Rightarrow> MonthKey \<Rightarrow> MonthlyUsage option" where
  "getMonthlyUsage d key = map_of (monthly_totals d) key"

record Threshold =
  percent :: real
  action :: string

record UsageStatus =
  current_month :: MonthKey
  spent_usd :: real
  budget_usd :: real
  percent_used :: real
  remaining_usd :: real
  alert_triggered :: bool
  triggered_alerts :: "Threshold list"
  is_blocked :: bool
  status_by_tier :: "(string \<times> TierTotals) list"
  status_by_model :: "(string \<times> TierTotals) list"

text \<open>\<open>Math.round\<close> gives the nearest integer, of two equally near the greater. It
  does not round twice: the result is this integer exactly.\<close>

definition Math_round :: "real \<Rightarrow> real" where
  "Math_round x = of_int \<lfloor>x + 1 / 2\<rfloor>"

text \<open>The percentage \<open>getStatus\<close> computes,
  \<open>limit > 0 ? (spent / limit) * 100 : 0\<close>.\<close>

definition percentUsed :: "real \<Rightarrow> real \<Rightarrow> real" where
  "percentUsed spent limit = (if limit > 0 then fmul (fdiv spent limit) 100 else 0)"

text \<open>
  \<open>getStatus\<close>. The thresholds are compared with the computed percentage, and
  sorted by \<open>(a, b) => b.percent - a.percent\<close>: the rounded difference has the sign
  of the exact one, so this is the stable sort by decreasing percent.
\<close>

definition getStatus ::
  "UsageData \<Rightarrow> MonthKey \<Rightarrow> real \<Rightarrow> Threshold list option \<Rightarrow> UsageStatus" where
  "getStatus d monthKey monthly_limit alert_thresholds_opt =
     (let monthly = getMonthlyUsage d monthKey;
          spent = (case monthly of None \<Rightarrow> 0 | Some m \<Rightarrow> total_cost m);
          pct = percentUsed spent monthly_limit;
          thresholds = (case alert_thresholds_opt of
                          None \<Rightarrow> [\<lparr>percent = 80, action = ''notify_user''\<rparr>]
                        | Some ts \<Rightarrow> ts);
          triggeredAlerts = sort_key (\<lambda>t. - percent t) (filter (\<lambda>t. pct \<ge> percent t) thresholds);
          isBlocked = list_ex (\<lambda>t. action t = ''block_high_tier'' \<and> pct \<ge> percent t)
                        triggeredAlerts
      in \<lparr>current_month = monthKey,
          spent_usd = fdiv (Math_round (fmul spent 100)) 100,
          budget_usd = monthly_limit,
          percent_used = fdiv (Math_round (fmul pct 10)) 10,
          remaining_usd = fdiv (Math_round (fmul (fsub monthly_limit spent) 100)) 100,
          alert_triggered = (triggeredAlerts \<noteq> []),
          triggered_alerts = triggeredAlerts,
          is_blocked = isBlocked,
          status_by_tier = (case monthly of None \<Rightarrow> [] | Some m \<Rightarrow> by_tier m),
          status_by_model = (case monthly of None \<Rightarrow> [] | Some m \<Rightarrow> by_model m)\<rparr>)"

text \<open>A sequence of \<open>record\<close> calls, each with what the clock and the disk gave it.\<close>

record RecordCall =
  call_ts :: string
  call_month :: MonthKey
  call_save_ok :: bool
  call_params :: UsageParams

definition record_all :: "UsageData \<Rightarrow> RecordCall list \<Rightarrow> UsageData" where
  "record_all d cs =
     foldl (\<lambda>d c. fst (CostTracker_record d (call_ts c) (call_month c) (call_save_ok c)
                          (call_params c))) d cs"


section \<open>Conversation memory (tracking/memory.ts)\<close>

text \<open>
  The reason a tool gives for a tier: \<open>UserReason r\<close> is the caller's own text,
  \<open>ForcedByUser\<close> is \<open>forced by user\<close>, \<open>BudgetForcedFallback\<close> is
  \<open>budget limit - forced fallback\<close>, \<open>RuleReason r\<close> is the reason of the rule
  match, \<open>RuleBudgetBlocked r\<close> is that reason followed by \<open>(budget blocked)\<close>, and
  \<open>NoRuleMatch\<close> is \<open>no rule match\<close>.
\<close>

datatype Reason =
    UserReason string
  | ForcedByUser
  | BudgetForcedFallback
  | RuleReason MatchReason
  | RuleBudgetBlocked MatchReason
  | NoRuleMatch

text \<open>\<open>me_context\<close> is the optional context object; the only member the code
  ever puts there is \<open>reason\<close>, itself optional.\<close>

record MemoryEntry =
  me_timestamp :: string
  task_pattern :: string
  tier_used :: string
  success :: bool
  me_context :: "Reason option option"

text \<open>\<open>randomUUID()\<close> never repeats a value: session identifiers are drawn from a
  counter kept with the tracker.\<close>

record ConversationMemory =
  session_id :: nat
  entries :: "MemoryEntry list"
  created_at :: string
  last_updated :: string

record MemoryData =
  sessions :: "ConversationMemory list"
  current_session_id :: "nat option"

record ConversationMemoryTracker =
  data :: MemoryData
  maxEntriesPerSession :: nat
  maxSessions :: nat
  uuid_counter :: nat

text \<open>\<open>while (xs.length > bound) xs.shift()\<close>, the loop of both prunings.\<close>

function prune_oldest :: "nat \<Rightarrow> 'a list \<Rightarrow> 'a list" where
  "prune_oldest bound xs = (if length xs > bound then prune_oldest bound (tl xs) else xs)"
  by pat_completeness auto
termination
  by (relation "measure (\<lambda>(bound, xs). length xs)") auto

declare prune_oldest.simps [simp del]

definition getCurrentSession :: "ConversationMemoryTracker \<Rightarrow> ConversationMemory option" where
  "getCurrentSession tr =
     (case current_session_id (data tr) of
        None \<Rightarrow> None
      | Some sid \<Rightarrow> find (\<lambda>s. session_id s = sid) (sessions (data tr)))"

definition startNewSession :: "ConversationMemoryTracker \<Rightarrow> string \<Rightarrow> ConversationMemoryTracker" where
  "startNewSession tr now =
     (let sessionId = uuid_counter tr;
          session = \<lparr>session_id = sessionId, entries = [], created_at = now,
                     last_updated = now\<rparr>
      in tr\<lparr>data := \<lparr>sessions = prune_oldest (maxSessions tr) (sessions (data tr) @ [session]),
                      current_session_id = Some sessionId\<rparr>,
            uuid_counter := Suc (uuid_counter tr)\<rparr>)"

text \<open>The constructor on a data directory without a memory file; \<open>save\<close> only logs
  a failure, so the disk has no part in the model.\<close>

definition new_tracker :: "nat \<Rightarrow> nat \<Rightarrow> string \<Rightarrow> ConversationMemoryTracker" where
  "new_tracker maxE maxS now =
     startNewSession \<lparr>data = \<lparr>sessions = [], current_session_id = None\<rparr>,
                      maxEntriesPerSession = maxE, maxSessions = maxS, uuid_counter = 0\<rparr> now"

definition pattern_table :: "(string list \<times> string) list" where
  "pattern_table =
     [([''architect''], ''architecture''),
      ([''design''], ''design''),
      ([''security''], ''security''),
      ([''refactor''], ''refactor''),
      ([''implement''], ''implementation''),
      ([''create'', ''add''], ''creation''),
      ([''fix'', ''bug'', ''debug''], ''bugfix''),
      ([''explore'', ''search'', ''find''], ''exploration''),
      ([''test''], ''testing''),
      ([''document''], ''documentation'')]"

definition extractPattern :: "string \<Rightarrow> string" where
  "extractPattern task =
     (let lowered = toLowerCase task
      in case find (\<lambda>(alts, p). list_ex (str_includes lowered) alts) pattern_table of
           None \<Rightarrow> ''general''
         | Some (alts, p) \<Rightarrow> p)"

text \<open>The session object is mutated in place: the first session with the
  identifier is the one \<open>find\<close> returned.\<close>

fun update_first :: "('a \<Rightarrow> bool) \<Rightarrow> ('a \<Rightarrow> 'a) \<Rightarrow> 'a list \<Rightarrow> 'a list" where
  "update_first P f [] = []"
| "update_first P f (x # xs) = (if P x then f x # xs else x # update_first P f xs)"

definition push_entry :: "nat \<Rightarrow> MemoryEntry \<Rightarrow> ConversationMemory \<Rightarrow> ConversationMemory" where
  "push_entry bound e session =
     session\<lparr>entries := prune_oldest bound (entries session @ [e]),
             last_updated := me_timestamp e\<rparr>"

text \<open>\<open>recordTask\<close> calls itself after starting a session when it finds none; it
  does not return when that never gives it one.\<close>

partial_function (option) recordTask ::
  "ConversationMemoryTracker \<Rightarrow> string \<Rightarrow> string \<Rightarrow> string \<Rightarrow> bool \<Rightarrow> Reason option option
     \<Rightarrow> ConversationMemoryTracker option" where
  "recordTask tr now taskPattern tierUsed succ ctx =
     (case getCurrentSession tr of
        None \<Rightarrow> recordTask (startNewSession tr now) now taskPattern tierUsed succ ctx
      | Some session \<Rightarrow>
          (let entry = \<lparr>me_timestamp = now, task_pattern = extractPattern taskPattern,
                        tier_used = tierUsed, success = succ, me_context = ctx\<rparr>
           in Some (tr\<lparr>data := (data tr)\<lparr>sessions :=
                         update_first (\<lambda>s. session_id s = session_id session)
                           (push_entry (maxEntriesPerSession tr) entry)
                           (sessions (data tr))\<rparr>\<rparr>)))"

definition recordTierSwitch ::
  "ConversationMemoryTracker \<Rightarrow> string \<Rightarrow> string \<Rightarrow> string \<Rightarrow> Reason option
     \<Rightarrow> ConversationMemoryTracker option" where
  "recordTierSwitch tr now fromTier toTier r =
     recordTask tr now (''tier_switch:'' @ fromTier @ ''->'' @ toTier) toTier True (Some r)"

text \<open>
  A value of the object \<open>tierCounts\<close>: a count, or the text that \<open>+ 1\<close> makes of an
  inherited function, which is not the text of a number.
\<close>

datatype CountValue = Number nat | NotANumber

text \<open>
  \<open>tierCounts[t] = (tierCounts[t] || 0) + 1\<close>. An own count grows by one, and an own
  text stays a text. A name the object does not own starts at 1, unless it names an
  inherited member: the function read there becomes a text by \<open>+ 1\<close>, stored as an
  own property; for \<open>__proto__\<close> the assignment of a text is ignored.
\<close>

definition count_tier :: "(string \<times> CountValue) list \<Rightarrow> string \<Rightarrow> (string \<times> CountValue) list" where
  "count_tier tierCounts t =
     (case map_of tierCounts t of
        Some (Number c) \<Rightarrow> AList.update t (Number (c + 1)) tierCounts
      | Some NotANumber \<Rightarrow> tierCounts
      | None \<Rightarrow>
          if t = ''__proto__'' then tierCounts
          else if t \<in> set inherited_members then tierCounts @ [(t, NotANumber)]
          else tierCounts @ [(t, Number 1)])"

text \<open>The comparator \<open>(a, b) => b[1] - a[1]\<close>; where the difference is NaN,
  \<open>sort\<close> takes it for 0.\<close>

definition compare_counts :: "string \<times> CountValue \<Rightarrow> string \<times> CountValue \<Rightarrow> int" where
  "compare_counts a b =
     (case (snd a, snd b) of
        (Number x, Number y) \<Rightarrow> int y - int x
      | _ \<Rightarrow> 0)"

text \<open>
  \<open>Array.prototype.sort\<close> with a comparator is stable: elements that compare equal
  keep their order. Here it is an insertion sort; for a comparator that is not
  consistent (a text among different counts) ECMAScript leaves the order to the
  implementation.
\<close>

fun insort_cmp :: "('a \<Rightarrow> 'a \<Rightarrow> int) \<Rightarrow> 'a \<Rightarrow> 'a list \<Rightarrow> 'a list" where
  "insort_cmp cmp x [] = [x]"
| "insort_cmp cmp x (y # ys) = (if cmp x y \<le> 0 then x # y # ys else y # insort_cmp cmp x ys)"

definition sort_cmp :: "('a \<Rightarrow> 'a \<Rightarrow> int) \<Rightarrow> 'a list \<Rightarrow> 'a list" where
  "sort_cmp cmp xs = foldr (insort_cmp cmp) xs []"

definition getRecommendedTier :: "ConversationMemoryTracker \<Rightarrow> string \<Rightarrow> string option" where
  "getRecommendedTier tr task =
     (let pattern = extractPattern task
      in case getCurrentSession tr of
           None \<Rightarrow> None
         | Some session \<Rightarrow>
             (let relevantEntries =
                    filter (\<lambda>e. task_pattern e = pattern \<and> success e) (entries session)
              in if relevantEntries = [] then None
                 else (let tierCounts = foldl count_tier [] (map tier_used relevantEntries);
                           entries = Object_entries tierCounts
                       in case sort_cmp compare_counts entries of
                            [] \<Rightarrow> None
                          | e # _ \<Rightarrow> Some (fst e))))"

text \<open>The operations on the memory a caller can make, each with the time it is made at.\<close>

datatype MemoryOp =
    RecordTask string string string bool "Reason option option"
  | StartNewSession string

fun memory_op :: "ConversationMemoryTracker \<Rightarrow> MemoryOp \<Rightarrow> ConversationMemoryTracker option" where
  "memory_op tr (RecordTask now task tierUsed succ ctx) = recordTask tr now task tierUsed succ ctx"
| "memory_op tr (StartNewSession now) = Some (startNewSession tr now)"

fun memory_ops :: "ConversationMemoryTracker \<Rightarrow> MemoryOp list \<Rightarrow> ConversationMemoryTracker option" where
  "memory_ops tr [] = Some tr"
| "memory_ops tr (x # xs) =
     (case memory_op tr x of None \<Rightarrow> None | Some tr' \<Rightarrow> memory_ops tr' xs)"

text \<open>
  The history the bounds are measured against: every session ever started with every
  entry ever recorded in it, nothing discarded. \<open>takeLast n\<close> keeps the most recent
  \<open>n\<close>.
\<close>

definition entry_of :: "string \<Rightarrow> string \<Rightarrow> string \<Rightarrow> bool \<Rightarrow> Reason option option \<Rightarrow> MemoryEntry" where
  "entry_of now task tierUsed succ ctx =
     \<lparr>me_timestamp = now, task_pattern = extractPattern task, tier_used = tierUsed,
      success = succ, me_context = ctx\<rparr>"

fun history_op :: "MemoryEntry list list \<Rightarrow> MemoryOp \<Rightarrow> MemoryEntry list list" where
  "history_op h (RecordTask now task tierUsed succ ctx) =
     butlast h @ [last h @ [entry_of now task tierUsed succ ctx]]"
| "history_op h (StartNewSession now) = h @ [[]]"

definition history :: "MemoryOp list \<Rightarrow> MemoryEntry list list" where
  "history ops = foldl history_op [[]] ops"

definition takeLast :: "nat \<Rightarrow> 'a list \<Rightarrow> 'a list" where
  "takeLast n xs = drop (length xs - n) xs"


section \<open>Server context and tools (server.ts, tools/*.ts)\<close>

record ServerState =
  currentTier :: Tier
  state_strategy :: StrategyType
  autoMode :: bool

record BudgetConfig =
  monthly_limit_usd :: real
  alert_thresholds :: "Threshold list"

text \<open>
  \<open>budget\<close> is \<open>context.config.budget\<close>, the only part of the configuration a
  tool writes. The rule engine holds the context's memory tracker (the same
  object), so \<open>classifyTask\<close> is given \<open>getRecommendedTier\<close> of \<open>memoryTracker\<close>.
\<close>

record ServerContext =
  budget :: "BudgetConfig option"
  state :: ServerState
  costTracker :: UsageData
  memoryTracker :: ConversationMemoryTracker
  ruleEngine :: RuleEngine

text \<open>What the clock gives during one tool call: the time in milliseconds, its ISO
  text and its month key.\<close>

record Clock =
  now_ms :: int
  now_iso :: string
  month_key :: MonthKey

definition createServer ::
  "StrategyType \<Rightarrow> RulesConfig option \<Rightarrow> BudgetConfig option \<Rightarrow> string \<Rightarrow> ServerContext" where
  "createServer strat rules bud now =
     \<lparr>budget = bud,
      state = \<lparr>currentTier = (if strat = TwoTier then ''primary'' else ''tier1''),
                state_strategy = strat, autoMode = True\<rparr>,
      costTracker = empty_usage,
      memoryTracker = new_tracker 100 10 now,
      ruleEngine = \<lparr>config = rules, strategy = strat, errorWindow = []\<rparr>\<rparr>"

definition switchTier :: "ServerContext \<Rightarrow> Clock \<Rightarrow> Tier \<Rightarrow> Reason option \<Rightarrow> ServerContext option" where
  "switchTier ctx clock t r =
     (let previousTier = currentTier (state ctx)
      in case recordTierSwitch (memoryTracker ctx) (now_iso clock) previousTier t r of
           None \<Rightarrow> None
         | Some mt \<Rightarrow>
             Some (ctx\<lparr>state := (state ctx)\<lparr>currentTier := t\<rparr>, memoryTracker := mt\<rparr>))"

definition setStrategy :: "ServerContext \<Rightarrow> StrategyType \<Rightarrow> ServerContext" where
  "setStrategy ctx strat =
     ctx\<lparr>state := (state ctx)\<lparr>state_strategy := strat,
                                currentTier := (if strat = TwoTier then ''primary'' else ''tier1'')\<rparr>,
         ruleEngine := (ruleEngine ctx)\<lparr>strategy := strat\<rparr>\<rparr>"

subsection \<open>switch\_tier\<close>

record SwitchTierArgs =
  arg_tier :: string
  arg_reason :: "string option"

datatype SwitchTierResponse =
    SwitchInvalidTier string StrategyType "Tier list"
  | SwitchedFromTo Tier Tier "string option"

definition handleSwitchTier ::
  "SwitchTierArgs \<Rightarrow> ServerContext \<Rightarrow> Clock \<Rightarrow> (SwitchTierResponse \<times> ServerContext) option" where
  "handleSwitchTier args ctx clock =
     (if \<not> isValidTier (strategy (ruleEngine ctx)) (arg_tier args)
      then Some (SwitchInvalidTier (arg_tier args) (state_strategy (state ctx))
                   (getAvailableTiers (strategy (ruleEngine ctx))), ctx)
      else (let previousTier = currentTier (state ctx)
            in case switchTier ctx clock (arg_tier args) (map_option UserReason (arg_reason args)) of
                 None \<Rightarrow> None
               | Some ctx' \<Rightarrow>
                   Some (SwitchedFromTo previousTier (arg_tier args) (arg_reason args), ctx')))"

subsection \<open>get\_status and the budget in force\<close>

text \<open>\<open>context.config.budget || { monthly_limit_usd: 100, alert_thresholds: [] }\<close>
  and the \<open>getStatus\<close> call on it, as \<open>handleGetStatus\<close> and \<open>handleOrchestrate\<close>
  both make it.\<close>

definition budget_in_force :: "ServerContext \<Rightarrow> BudgetConfig" where
  "budget_in_force ctx =
     (case budget ctx of
        None \<Rightarrow> \<lparr>monthly_limit_usd = 100, alert_thresholds = []\<rparr>
      | Some b \<Rightarrow> b)"

definition usage_status :: "ServerContext \<Rightarrow> Clock \<Rightarrow> UsageStatus" where
  "usage_status ctx clock =
     (let b = budget_in_force ctx
      in getStatus (costTracker ctx) (month_key clock) (monthly_limit_usd b)
           (Some (alert_thresholds b)))"

subsection \<open>orchestrate\<close>

record OrchestrateArgs =
  arg_task :: "string option"
  force_tier :: "string option"
  auto_switch :: "bool option"

datatype TierOutcome =
    SwitchedToTier
  | RecommendedAutoModeDisabled
  | RecommendedNoAutoSwitch
  | StayingOnTier

text \<open>The response is text; the model keeps what the text reports: the target
  tier, the reason, whether the budget fallback was taken, and what was done.\<close>

record Routing =
  targetTier :: Tier
  routing_reason :: Reason
  budget_fallback :: bool
  outcome :: TierOutcome

datatype OrchestrateResponse =
    OrchestrateInvalidTask
  | OrchestrateInvalidTier string StrategyType "Tier list"
  | Routed Routing

definition is_space :: "char \<Rightarrow> bool" where
  "is_space c = ((of_char c :: nat) \<in> {9, 10, 11, 12, 13, 32, 160})"

definition highCostTiers :: "string list" where
  "highCostTiers = [''critical'', ''tier3'', ''tier2'']"

definition fallbackTier :: "ServerContext \<Rightarrow> Tier" where
  "fallbackTier ctx = (if state_strategy (state ctx) = TwoTier then ''primary'' else ''tier1'')"

text \<open>The part of \<open>handleOrchestrate\<close> after the target tier is determined.\<close>

definition apply_routing ::
  "ServerContext \<Rightarrow> Clock \<Rightarrow> string \<Rightarrow> bool \<Rightarrow> Tier \<Rightarrow> Reason \<Rightarrow> bool
     \<Rightarrow> (OrchestrateResponse \<times> ServerContext) option" where
  "apply_routing ctx clock task autoSwitch target r blocked =
     (let tierChanged = (target \<noteq> currentTier (state ctx));
          answer = (\<lambda>oc. Routed \<lparr>targetTier = target, routing_reason = r,
                                 budget_fallback = blocked, outcome = oc\<rparr>)
      in if tierChanged \<and> autoSwitch \<and> autoMode (state ctx) then
           (case switchTier ctx clock target (Some r) of
              None \<Rightarrow> None
            | Some ctx' \<Rightarrow>
                (case recordTask (memoryTracker ctx') (now_iso clock) task target True
                        (Some (Some r)) of
                   None \<Rightarrow> None
                 | Some mt \<Rightarrow> Some (answer SwitchedToTier, ctx'\<lparr>memoryTracker := mt\<rparr>)))
         else if tierChanged \<and> \<not> autoMode (state ctx) then
           Some (answer RecommendedAutoModeDisabled, ctx)
         else if tierChanged \<and> \<not> autoSwitch then
           Some (answer RecommendedNoAutoSwitch, ctx)
         else Some (answer StayingOnTier, ctx))"

definition handleOrchestrate ::
  "OrchestrateArgs \<Rightarrow> ServerContext \<Rightarrow> Clock \<Rightarrow> (OrchestrateResponse \<times> ServerContext) option" where
  "handleOrchestrate args ctx clock =
     (case arg_task args of
        None \<Rightarrow> Some (OrchestrateInvalidTask, ctx)
      | Some task \<Rightarrow>
          if list_all is_space task then Some (OrchestrateInvalidTask, ctx)
          else
            (let autoSwitch = (case auto_switch args of None \<Rightarrow> True | Some b \<Rightarrow> b);
                 isBlocked = is_blocked (usage_status ctx clock);
                 forced = (case force_tier args of
                             None \<Rightarrow> None
                           | Some f \<Rightarrow> if f = [] then None else Some f)
             in case forced of
                  Some forceTier \<Rightarrow>
                    if \<not> isValidTier (strategy (ruleEngine ctx)) forceTier then
                      Some (OrchestrateInvalidTier forceTier (state_strategy (state ctx))
                              (getAvailableTiers (strategy (ruleEngine ctx))), ctx)
                    else if isBlocked \<and> forceTier \<in> set highCostTiers then
                      apply_routing ctx clock task autoSwitch (fallbackTier ctx)
                        BudgetForcedFallback True
                    else
                      apply_routing ctx clock task autoSwitch forceTier ForcedByUser False
                | None \<Rightarrow>
                    (let (ruleMatch, re') =
                           classifyTask (ruleEngine ctx)
                             (Some (getRecommendedTier (memoryTracker ctx))) task
                             (currentTier (state ctx)) (now_ms clock);
                         ctx1 = ctx\<lparr>ruleEngine := re'\<rparr>
                     in case ruleMatch of
                          Some m \<Rightarrow>
                            if isBlocked \<and> target_tier m \<in> set highCostTiers then
                              apply_routing ctx1 clock task autoSwitch (fallbackTier ctx)
                                (RuleBudgetBlocked (reason m)) True
                            else
                              apply_routing ctx1 clock task autoSwitch (target_tier m)
                                (RuleReason (reason m)) False
                        | None \<Rightarrow>
                            apply_routing ctx1 clock task autoSwitch (currentTier (state ctx))
                              NoRuleMatch False)))"

subsection \<open>set\_budget\<close>

record SetBudgetArgs =
  arg_monthly_limit_usd :: real
  alert_threshold_percent :: "real option"

datatype SetBudgetResponse =
    LimitNotPositive
  | PercentOutOfRange
  | BudgetUpdated real "Threshold list" UsageStatus

definition defaultThresholds :: "Threshold list" where
  "defaultThresholds =
     [\<lparr>percent = 50, action = ''log_warning''\<rparr>,
      \<lparr>percent = 95, action = ''require_confirmation''\<rparr>,
      \<lparr>percent = 100, action = ''block_high_tier''\<rparr>]"

text \<open>The thresholds \<open>handleSetBudget\<close> builds for its response.\<close>

definition shown_thresholds :: "real \<Rightarrow> Threshold list" where
  "shown_thresholds alertThresholdPercent =
     (let customThreshold = \<lparr>percent = alertThresholdPercent, action = ''notify_user''\<rparr>;
          hasCustomThreshold = list_ex (\<lambda>t. percent t = alertThresholdPercent) defaultThresholds
      in if hasCustomThreshold then defaultThresholds
         else sort_key percent (defaultThresholds @ [customThreshold]))"

definition handleSetBudget ::
  "SetBudgetArgs \<Rightarrow> ServerContext \<Rightarrow> Clock \<Rightarrow> SetBudgetResponse \<times> ServerContext" where
  "handleSetBudget args ctx clock =
     (let monthlyLimit = arg_monthly_limit_usd args;
          alertThresholdPercent =
            (case alert_threshold_percent args of None \<Rightarrow> 80 | Some p \<Rightarrow> p)
      in if monthlyLimit \<le> 0 then (LimitNotPositive, ctx)
         else if alertThresholdPercent < 0 \<or> alertThresholdPercent > 100 then
           (PercentOutOfRange, ctx)
         else
           (let ctx' = ctx\<lparr>budget :=
                         Some (case budget ctx of
                                 None \<Rightarrow> \<lparr>monthly_limit_usd = monthlyLimit,
                                           alert_thresholds = []\<rparr>
                               | Some b \<Rightarrow> b\<lparr>monthly_limit_usd := monthlyLimit\<rparr>)\<rparr>;
                alertThresholds = shown_thresholds alertThresholdPercent;
                usage = getStatus (costTracker ctx) (month_key clock) monthlyLimit
                          (Some alertThresholds)
            in (BudgetUpdated monthlyLimit alertThresholds usage, ctx')))"

section \<open>Notions of the specification\<close>

text \<open>The tier set of a strategy.\<close>

definition strategy_tiers :: "StrategyType \<Rightarrow> string set" where
  "strategy_tiers s =
     (case s of TwoTier \<Rightarrow> {''primary'', ''critical''}
              | ThreeTier \<Rightarrow> {''tier1'', ''tier2'', ''tier3''})"

text \<open>
  The calls of a period, the calls of a tier among them, and what a list of calls
  adds up to: the costs are added one after the other from 0, each addition
  rounded (\<open>fsum\<close>); the token counts are integers.
\<close>

definition fsum :: "real list \<Rightarrow> real" where
  "fsum xs = foldl fadd 0 xs"









text \<open>
  The memory \<open>tr\<close> against the history \<open>h\<close> of everything recorded: the retained
  sessions are the most recent \<open>maxSessions\<close> of the history, each with its most
  recent \<open>maxEntriesPerSession\<close> entries; the current session is the last one;
  session identifiers are distinct and below the counter.
\<close>

definition tracks :: "ConversationMemoryTracker \<Rightarrow> MemoryEntry list list \<Rightarrow> bool" where
  "tracks tr h \<longleftrightarrow>
     h \<noteq> [] \<and> 0 < maxSessions tr
     \<and> map entries (sessions (data tr))
         = map (takeLast (maxEntriesPerSession tr)) (takeLast (maxSessions tr) h)
     \<and> current_session_id (data tr) = Some (session_id (last (sessions (data tr))))
     \<and> distinct (map session_id (sessions (data tr)))
     \<and> list_all (\<lambda>s. session_id s < uuid_counter tr) (sessions (data tr))"

text \<open>
  The memory \<open>tr\<close> after the entry \<open>e\<close> is recorded in its last session: the
  entry is appended, and the session keeps its most recent \<open>maxEntriesPerSession\<close>
  entries and takes the time of the entry. The other sessions, the identifier of
  the current session, the two capacities and the counter are those of \<open>tr\<close>.
\<close>

definition with_entry :: "ConversationMemoryTracker \<Rightarrow> MemoryEntry \<Rightarrow> ConversationMemoryTracker" where
  "with_entry tr e =
     tr\<lparr>data := (data tr)\<lparr>sessions :=
          butlast (sessions (data tr))
          @ [(last (sessions (data tr)))
               \<lparr>entries := takeLast (maxEntriesPerSession tr)
                             (entries (last (sessions (data tr))) @ [e]),
                last_updated := me_timestamp e\<rparr>]\<rparr>\<rparr>"

text \<open>A tier name that the object of counts treats as an ordinary key: it is
  enumerated in creation order and starts from no inherited value.\<close>

definition ordinary_key :: "string \<Rightarrow> bool" where
  "ordinary_key t \<longleftrightarrow> \<not> is_array_index t \<and> t \<notin> set inherited_members"

text \<open>What the comparator of counts sorts by when every count is a number.\<close>

definition count_key :: "string \<times> CountValue \<Rightarrow> int" where
  "count_key p = (case snd p of Number c \<Rightarrow> - int c | NotANumber \<Rightarrow> 0)"

text \<open>The tiers of the successful entries of the current session whose category is
  that of the task, in entry order, and the position at which a tier is first
  encountered in such a list.\<close>

definition first_index :: "'a \<Rightarrow> 'a list \<Rightarrow> nat" where
  "first_index t ts = length (takeWhile (\<lambda>x. x \<noteq> t) ts)"

definition relevant_tiers :: "ConversationMemoryTracker \<Rightarrow> string \<Rightarrow> string list" where
  "relevant_tiers tr task =
     (case getCurrentSession tr of
        None \<Rightarrow> []
      | Some s \<Rightarrow>
          map tier_used
            (filter (\<lambda>e. task_pattern e = extractPattern task \<and> success e) (entries s)))"


section \<open>Concrete configurations\<close>

text \<open>Two rules of the default configuration, a rule whose target is no tier of the
  2-tier strategy, a rule of priority above 200, and an engine around them.\<close>

definition arch_rule :: KeywordRule where
  "arch_rule = \<lparr>kr_name = ''architecture_keywords'',
      kr_patterns = [''architecture'', ''design decision'', ''system design'', ''refactor'',
                     ''restructure''],
      kr_target_tier = (\<lambda>s. if s = TwoTier then Some ''critical'' else Some ''tier3''),
      kr_priority = 100\<rparr>"

definition security_rule :: KeywordRule where
  "security_rule = \<lparr>kr_name = ''security_keywords'',
      kr_patterns = [''security'', ''authentication'', ''authorization'', ''vulnerability'',
                     ''encryption''],
      kr_target_tier = (\<lambda>s. if s = TwoTier then Some ''critical'' else Some ''tier3''),
      kr_priority = 90\<rparr>"

definition stray_rule :: KeywordRule where
  "stray_rule = \<lparr>kr_name = ''stray'', kr_patterns = [''deploy''],
      kr_target_tier = (\<lambda>s. Some ''tier3''), kr_priority = 100\<rparr>"

definition urgent_rule :: KeywordRule where
  "urgent_rule = \<lparr>kr_name = ''urgent_keywords'', kr_patterns = [''urgent''],
      kr_target_tier = (\<lambda>s. if s = TwoTier then Some ''critical'' else Some ''tier3''),
      kr_priority = 250\<rparr>"

definition default_rules :: "KeywordRule list \<Rightarrow> RulesConfig" where
  "default_rules rules =
     \<lparr>keyword_rules = rules,
      error_escalation = \<lparr>ee_enabled = True, ee_threshold = 3, ee_window_minutes = 30,
                           ee_action = ''escalate_one_tier''\<rparr>,
      cost_optimization = Some \<lparr>co_enabled = True,
         co_simple_task_patterns = [''list files'', ''show status'', ''get info'', ''read file''],
         co_action = ''suggest_lower_tier''\<rparr>\<rparr>"

definition engine_of :: "KeywordRule list \<Rightarrow> StrategyType \<Rightarrow> int list \<Rightarrow> RuleEngine" where
  "engine_of rules s errs = \<lparr>config = Some (default_rules rules), strategy = s, errorWindow = errs\<rparr>"

text \<open>A memory whose current session holds one successful entry of category
  \<open>general\<close> served by \<open>critical\<close>.\<close>

definition critical_memory :: ConversationMemoryTracker where
  "critical_memory =
     \<lparr>data = \<lparr>sessions =
                 [\<lparr>session_id = 0,
                   entries = [\<lparr>me_timestamp = ''t1'', task_pattern = ''general'',
                               tier_used = ''critical'', success = True, me_context = None\<rparr>],
                   created_at = ''t0'', last_updated = ''t1''\<rparr>],
               current_session_id = Some 0\<rparr>,
      maxEntriesPerSession = 100, maxSessions = 10, uuid_counter = 1\<rparr>"

text \<open>A recorded call, the alert thresholds and budget of the default configuration, a
  server on them and a clock.\<close>

definition usage_call :: "MonthKey \<Rightarrow> string \<Rightarrow> real \<Rightarrow> RecordCall" where
  "usage_call month t c =
     \<lparr>call_ts = ''2026-11-03T10:00:00.000Z'', call_month = month, call_save_ok = True,
      call_params = \<lparr>provider = ''anthropic'', model = ''opus'', tier = t,
                      input_tokens = 1000, output_tokens = 500, cost_usd = c,
                      task_summary = None\<rparr>\<rparr>"

definition default_alerts :: "Threshold list" where
  "default_alerts =
     [\<lparr>percent = 50, action = ''log_warning''\<rparr>,
      \<lparr>percent = 80, action = ''notify_user''\<rparr>,
      \<lparr>percent = 95, action = ''require_confirmation''\<rparr>,
      \<lparr>percent = 100, action = ''block_high_tier''\<rparr>]"

definition default_budget :: BudgetConfig where
  "default_budget = \<lparr>monthly_limit_usd = 100, alert_thresholds = default_alerts\<rparr>"

definition default_server :: ServerContext where
  "default_server =
     createServer TwoTier (Some (default_rules [arch_rule, security_rule])) (Some default_budget)
       ''2026-11-03T09:00:00.000Z''"

definition november :: Clock where
  "november = \<lparr>now_ms = 1000, now_iso = ''2026-11-03T10:00:00.000Z'', month_key = (2026, 11)\<rparr>"


text \<open>A sequence of memory operations; a memory whose current session has a tie
  between \<open>primary\<close> and \<open>critical\<close> for bug fixes beside an older session that
  used \<open>critical\<close> only; a server on \<open>critical\<close> that has spent 105 of its 100.\<close>

definition some_ops :: "MemoryOp list" where
  "some_ops =
     [RecordTask ''t1'' ''fix the login bug'' ''primary'' True None,
      RecordTask ''t2'' ''design the schema'' ''critical'' True None,
      RecordTask ''t3'' ''add a test'' ''primary'' False None,
      StartNewSession ''t4'',
      RecordTask ''t5'' ''explore the repo'' ''primary'' True None]"

definition tie_memory :: ConversationMemoryTracker where
  "tie_memory =
     \<lparr>data = \<lparr>sessions =
          [\<lparr>session_id = 0,
            entries = [entry_of ''s1'' ''fix the parser'' ''critical'' True None,
                       entry_of ''s2'' ''debug the build'' ''critical'' True None,
                       entry_of ''s3'' ''fix the cache bug'' ''critical'' True None],
            created_at = ''s0'', last_updated = ''s3''\<rparr>,
           \<lparr>session_id = 1,
            entries = [entry_of ''t1'' ''fix the login bug'' ''primary'' True None,
                       entry_of ''t2'' ''debug the crash'' ''critical'' True None,
                       entry_of ''t3'' ''design the schema'' ''critical'' True None,
                       entry_of ''t4'' ''fix the flaky job'' ''critical'' True None,
                       entry_of ''t5'' ''fix the typo'' ''critical'' False None,
                       entry_of ''t6'' ''debug the timeout'' ''primary'' True None],
            created_at = ''t0'', last_updated = ''t6''\<rparr>],
        current_session_id = Some 1\<rparr>,
      maxEntriesPerSession = 100, maxSessions = 10, uuid_counter = 2\<rparr>"

definition blocked_server :: ServerContext where
  "blocked_server =
     default_server\<lparr>costTracker := record_all empty_usage [usage_call (2026, 11) ''critical'' 105],
                    state := (state default_server)\<lparr>currentTier := ''critical''\<rparr>\<rparr>"


text \<open>A memory whose only session holds one successful bug fix for each of the given
  tiers, in that order.\<close>

definition fixes_memory :: "string list \<Rightarrow> ConversationMemoryTracker" where
  "fixes_memory tiers =
     \<lparr>data = \<lparr>sessions =
          [\<lparr>session_id = 0,
            entries = map (\<lambda>t. entry_of ''t1'' ''fix the login bug'' t True None) tiers,
            created_at = ''t0'', last_updated = ''t1''\<rparr>],
        current_session_id = Some 0\<rparr>,
      maxEntriesPerSession = 100, maxSessions = 10, uuid_counter = 1\<rparr>"

section \<open>Binary64 arithmetic\<close>

lemma pow2_powi: "pow2 e = 2 powi e"
  by (simp add: pow2_def power_int_def field_simps)

lemma pow2_pos: "0 < pow2 e"
  by (simp add: pow2_powi)

lemma pow2_add: "pow2 (a + b) = pow2 a * pow2 b"
  by (simp add: pow2_powi power_int_add)

lemma pow2_succ: "pow2 (e + 1) = 2 * pow2 e"
  by (simp add: pow2_add) (simp add: pow2_def)

lemma pow2_pred: "pow2 (e - 1) = pow2 e / 2"
  using pow2_succ [of "e - 1"] by simp

lemma pow2_mono: "a \<le> b \<Longrightarrow> pow2 a \<le> pow2 b"
  by (simp add: pow2_powi power_int_increasing)

text \<open>\<open>ilog2\<close> gives the binary exponent, and nothing else does.\<close>

lemma ilog2_bounds: "0 < x \<Longrightarrow> pow2 (ilog2 x) \<le> x \<and> x < pow2 (ilog2 x + 1)"
proof (induction x rule: ilog2.induct)
  case (1 x)
  show ?case
  proof (cases "x < 1")
    case True
    with 1 have "pow2 (ilog2 (2 * x)) \<le> 2 * x \<and> 2 * x < pow2 (ilog2 (2 * x) + 1)" by simp
    moreover have e: "ilog2 x = ilog2 (2 * x) - 1" using True 1(3) by (subst ilog2.simps) simp
    moreover have "pow2 (ilog2 (2 * x) - 1) = pow2 (ilog2 (2 * x)) / 2" by (rule pow2_pred)
    moreover have "pow2 (ilog2 (2 * x) + 1) = 2 * pow2 (ilog2 (2 * x))" by (rule pow2_succ)
    moreover have "pow2 (ilog2 (2 * x) - 1 + 1) = pow2 (ilog2 (2 * x))" by simp
    ultimately show ?thesis unfolding e by linarith
  next
    case False
    show ?thesis
    proof (cases "2 \<le> x")
      case True
      with 1 False have "pow2 (ilog2 (x / 2)) \<le> x / 2 \<and> x / 2 < pow2 (ilog2 (x / 2) + 1)"
        by simp
      moreover have e: "ilog2 x = ilog2 (x / 2) + 1"
        using True False 1(3) by (subst ilog2.simps) simp
      moreover have "pow2 (ilog2 (x / 2) + 1) = 2 * pow2 (ilog2 (x / 2))" by (rule pow2_succ)
      moreover have "pow2 (ilog2 (x / 2) + 1 + 1) = 2 * pow2 (ilog2 (x / 2) + 1)"
        by (rule pow2_succ)
      ultimately show ?thesis unfolding e by linarith
    next
      case t: False
      have "ilog2 x = 0" using t False 1(3) by (subst ilog2.simps) simp
      with t False show ?thesis by (simp add: pow2_def)
    qed
  qed
qed

lemma ilog2_unique:
  assumes "pow2 e \<le> x" "x < pow2 (e + 1)"
  shows "ilog2 x = e"
proof -
  have x: "0 < x" using assms(1) pow2_pos [of e] by linarith
  from ilog2_bounds [OF x]
  have b: "pow2 (ilog2 x) \<le> x" "x < pow2 (ilog2 x + 1)" by simp_all
  have "\<not> ilog2 x + 1 \<le> e"
  proof
    assume "ilog2 x + 1 \<le> e"
    then have "pow2 (ilog2 x + 1) \<le> pow2 e" by (rule pow2_mono)
    with b assms show False by linarith
  qed
  moreover have "\<not> e + 1 \<le> ilog2 x"
  proof
    assume "e + 1 \<le> ilog2 x"
    then have "pow2 (e + 1) \<le> pow2 (ilog2 x)" by (rule pow2_mono)
    with b assms show False by linarith
  qed
  ultimately show ?thesis by linarith
qed

text \<open>The value of \<open>fl\<close> at a number whose binary exponent is known.\<close>

lemma fl_at:
  assumes "pow2 e \<le> \<bar>x\<bar>" "\<bar>x\<bar> < pow2 (e + 1)"
  shows "fl x = sgn x * of_int (round_half_even (\<bar>x\<bar> / pow2 (max e (- 1022) - 52)))
                  * pow2 (max e (- 1022) - 52)"
proof -
  have "x \<noteq> 0" using assms(1) pow2_pos [of e] by (cases "x = 0") simp_all
  moreover have "ilog2 \<bar>x\<bar> = e" using assms by (rule ilog2_unique)
  ultimately show ?thesis by (simp add: fl_def Let_def)
qed

lemma round_half_even_of_int [simp]: "round_half_even (of_int k) = k"
  by (simp add: round_half_even_def)

lemma round_half_even_near: "\<bar>of_int (round_half_even y) - y\<bar> \<le> 1 / 2"
proof -
  have "of_int \<lfloor>y\<rfloor> \<le> y" "y < of_int \<lfloor>y\<rfloor> + 1" by linarith+
  then show ?thesis by (auto simp: round_half_even_def Let_def)
qed

text \<open>Integers of magnitude below \<open>2^53\<close> are binary64 numbers.\<close>

lemma fl_of_int:
  assumes "\<bar>n\<bar> < 2 ^ 53"
  shows "fl (of_int n) = of_int n"
proof (cases "n = 0")
  case True
  then show ?thesis by (simp add: fl_def)
next
  case False
  define x :: real where "x = of_int n"
  define e where "e = ilog2 \<bar>x\<bar>"
  have x0: "0 < \<bar>x\<bar>" using False by (simp add: x_def)
  from ilog2_bounds [OF x0] have b: "pow2 e \<le> \<bar>x\<bar>" "\<bar>x\<bar> < pow2 (e + 1)"
    by (simp_all add: e_def)
  have "1 \<le> \<bar>n\<bar>" using False by simp
  then have "(of_int 1 :: real) \<le> of_int \<bar>n\<bar>" by (simp only: of_int_le_iff)
  then have x1: "1 \<le> \<bar>x\<bar>" by (simp add: x_def)
  have e0: "0 \<le> e"
  proof (rule ccontr)
    assume "\<not> 0 \<le> e"
    then have "e + 1 \<le> 0" by simp
    then have "pow2 (e + 1) \<le> pow2 0" by (rule pow2_mono)
    with b x1 show False by (simp add: pow2_def)
  qed
  have e52: "e \<le> 52"
  proof (rule ccontr)
    assume "\<not> e \<le> 52"
    then have "53 \<le> e" by simp
    then have "pow2 53 \<le> pow2 e" by (rule pow2_mono)
    moreover have "(of_int \<bar>n\<bar> :: real) < of_int (2 ^ 53)"
      using assms by (simp only: of_int_less_iff)
    then have "\<bar>x\<bar> < 2 ^ 53" by (simp add: x_def)
    ultimately show False using b by (simp add: pow2_def)
  qed
  have m: "max e (- 1022) = e" using e0 by simp
  define k where "k = nat (52 - e)"
  have u: "pow2 (e - 52) = 1 / 2 ^ k"
    using e52 by (auto simp: pow2_def k_def)
  have q: "\<bar>x\<bar> / pow2 (e - 52) = of_int (\<bar>n\<bar> * 2 ^ k)"
    by (simp add: u x_def)
  have rq: "round_half_even (\<bar>x\<bar> / pow2 (e - 52)) = \<bar>n\<bar> * 2 ^ k"
    by (simp only: q round_half_even_of_int)
  have "fl x = sgn x * of_int (round_half_even (\<bar>x\<bar> / pow2 (e - 52))) * pow2 (e - 52)"
    using fl_at [OF b] by (simp add: m)
  also have "\<dots> = sgn x * of_int (\<bar>n\<bar> * 2 ^ k) * pow2 (e - 52)"
    by (simp only: rq)
  also have "\<dots> = sgn x * of_int (\<bar>n\<bar> * 2 ^ k) * (1 / 2 ^ k)"
    by (simp only: u)
  also have "\<dots> = sgn x * \<bar>x\<bar>" by (simp add: x_def)
  also have "\<dots> = x" by (simp add: sgn_mult_abs)
  finally show ?thesis by (simp add: x_def)
qed

text \<open>Rounding moves a number by at most half the spacing at its exponent.\<close>

lemma fl_near:
  "\<bar>fl x - x\<bar> \<le> pow2 (max (ilog2 \<bar>x\<bar>) (- 1022) - 53)"
proof (cases "x = 0")
  case True
  then show ?thesis
    using pow2_pos [of "max (ilog2 \<bar>x\<bar>) (- 1022) - 53"] by (simp add: fl_def)
next
  case False
  define u where "u = pow2 (max (ilog2 \<bar>x\<bar>) (- 1022) - 52)"
  define r where "r = real_of_int (round_half_even (\<bar>x\<bar> / u))"
  have u0: "0 < u" unfolding u_def by (rule pow2_pos)
  have f: "fl x = sgn x * r * u" using False by (simp add: fl_def Let_def u_def r_def)
  have "\<bar>r - \<bar>x\<bar> / u\<bar> \<le> 1 / 2" unfolding r_def by (rule round_half_even_near)
  then have "\<bar>r - \<bar>x\<bar> / u\<bar> * u \<le> 1 / 2 * u" using u0 by (simp add: mult_right_mono)
  then have "\<bar>(r - \<bar>x\<bar> / u) * u\<bar> \<le> u / 2" using u0 by (simp add: abs_mult)
  moreover have "(r - \<bar>x\<bar> / u) * u = r * u - \<bar>x\<bar>" using u0 by (simp add: field_simps)
  ultimately have d: "\<bar>r * u - \<bar>x\<bar>\<bar> \<le> u / 2" by simp
  have "x = sgn x * \<bar>x\<bar>" by (simp add: sgn_mult_abs)
  then have "fl x - x = sgn x * r * u - sgn x * \<bar>x\<bar>" unfolding f by simp
  also have "\<dots> = sgn x * (r * u - \<bar>x\<bar>)" by (simp add: algebra_simps)
  finally have "fl x - x = sgn x * (r * u - \<bar>x\<bar>)" .
  then have "\<bar>fl x - x\<bar> = \<bar>r * u - \<bar>x\<bar>\<bar>" using False by (simp add: abs_mult abs_sgn_eq)
  with d have "\<bar>fl x - x\<bar> \<le> u / 2" by simp
  also have "u / 2 = pow2 (max (ilog2 \<bar>x\<bar>) (- 1022) - 53)"
    using pow2_pred [of "max (ilog2 \<bar>x\<bar>) (- 1022) - 52"] by (simp add: u_def)
  finally show ?thesis .
qed

lemma fl_zero [simp]: "fl 0 = 0"
  by (simp add: fl_def)

lemma fl_one [simp]: "fl 1 = 1"
  using fl_of_int [of 1] by simp

lemma fl_numeral: "numeral n < (2::int) ^ 53 \<Longrightarrow> fl (numeral n) = numeral n"
  using fl_of_int [of "numeral n"] by simp




lemma fl_33_3: "fl (333 / 10) = 2343279181116211 / 70368744177664"
  using fl_at [of 5 "333 / 10"] by (simp add: pow2_def round_half_even_def Let_def)


section \<open>The rule engine: what \<open>classifyTask\<close> returns\<close>

subsection \<open>The match of highest priority\<close>

lemma sort_by_priority_Nil [simp]: "sort_by_priority [] = []"
  by (simp add: sort_by_priority_def)

lemma sort_by_priority_Nil_iff: "sort_by_priority ms = [] \<longleftrightarrow> ms = []"
  by (metis length_0_conv length_sort sort_by_priority_def)

lemma set_sort_by_priority: "set (sort_by_priority ms) = set ms"
  by (simp add: sort_by_priority_def)

lemma hd_sort_by_priority_in: "ms \<noteq> [] \<Longrightarrow> hd (sort_by_priority ms) \<in> set ms"
  by (metis hd_in_set set_sort_by_priority sort_by_priority_Nil_iff)

lemma hd_sort_by_priority_max:
  assumes "y \<in> set ms"
  shows "priority y \<le> priority (hd (sort_by_priority ms))"
proof -
  let ?s = "sort_by_priority ms"
  have ne: "?s \<noteq> []" using assms sort_by_priority_Nil_iff by fastforce
  have srt: "sorted (map (\<lambda>m. - priority m) ?s)" by (simp add: sort_by_priority_def)
  have "y \<in> set ?s" using assms by (simp add: set_sort_by_priority)
  then have "- priority (hd ?s) \<le> - priority y"
    using srt ne by (cases ?s) auto
  then show ?thesis by simp
qed

lemma hd_sort_by_priority_unique:
  assumes "x \<in> set ms" and "\<forall>y \<in> set ms. y \<noteq> x \<longrightarrow> priority y < priority x"
  shows "hd (sort_by_priority ms) = x"
proof (rule ccontr)
  assume neq: "hd (sort_by_priority ms) \<noteq> x"
  have "ms \<noteq> []" using assms(1) by auto
  then have "hd (sort_by_priority ms) \<in> set ms" by (rule hd_sort_by_priority_in)
  with assms(2) neq have "priority (hd (sort_by_priority ms)) < priority x" by blast
  moreover have "priority x \<le> priority (hd (sort_by_priority ms))"
    using assms(1) by (rule hd_sort_by_priority_max)
  ultimately show False by simp
qed

lemma classifyTask_fst:
  assumes "config re = Some cfg"
  shows "fst (classifyTask re mt task cur now) =
     (let ms = collect_matches cfg (strategy re)
                 (errorWindow (if ee_enabled (error_escalation cfg) then cleanErrorWindow re now else re))
                 mt task cur
      in if ms = [] then None else Some (hd (sort_by_priority ms)))"
proof -
  define ms where "ms = collect_matches cfg (strategy re)
                 (errorWindow (if ee_enabled (error_escalation cfg) then cleanErrorWindow re now else re))
                 mt task cur"
  have "fst (classifyTask re mt task cur now) =
          (case sort_by_priority ms of [] \<Rightarrow> None | m # _ \<Rightarrow> Some m)"
    using assms by (simp add: classifyTask_def Let_def ms_def split: list.splits)
  also have "\<dots> = (if ms = [] then None else Some (hd (sort_by_priority ms)))"
    by (cases "sort_by_priority ms") (auto simp: sort_by_priority_Nil_iff)
  finally show ?thesis by (simp add: ms_def Let_def)
qed

lemma isValidTier_iff: "isValidTier s t \<longleftrightarrow> t \<in> strategy_tiers s"
  by (cases s) (auto simp: isValidTier_def getAvailableTiers_def strategy_tiers_def)

lemma keyword_match_elem:
  assumes "m \<in> set (keyword_match s t rule)"
  shows "kr_target_tier rule s = Some (target_tier m) \<and> target_tier m \<noteq> []
         \<and> priority m = kr_priority rule"
  using assms by (auto simp: keyword_match_def split: option.splits if_splits)

lemma keyword_matches_elem:
  assumes "m \<in> set (keyword_matches s t rules)"
  shows "\<exists>rule \<in> set rules. kr_target_tier rule s = Some (target_tier m)
           \<and> target_tier m \<noteq> [] \<and> priority m = kr_priority rule"
  using assms keyword_match_elem by (fastforce simp: keyword_matches_def)

lemma getEscalatedTier_valid:
  "getEscalatedTier s cur = Some t \<Longrightarrow> t \<in> strategy_tiers s"
  by (cases s) (auto simp: getEscalatedTier_def strategy_tiers_def split: if_splits)

lemma escalation_match_None:
  "getEscalatedTier s cur = None \<Longrightarrow> escalation_match cfg s w cur = []"
  unfolding escalation_match_def by (simp split: if_splits)

lemma escalation_match_target:
  "getEscalatedTier s cur = Some t \<Longrightarrow> m \<in> set (escalation_match cfg s w cur)
     \<Longrightarrow> target_tier m = t"
  unfolding escalation_match_def
  by (cases "t = []";
      cases "ee_enabled (error_escalation cfg) \<and> ee_threshold (error_escalation cfg) \<le> int (length w)")
     auto

lemma escalation_match_elem:
  assumes "m \<in> set (escalation_match cfg s w cur)"
  shows "target_tier m \<in> strategy_tiers s"
proof (cases "getEscalatedTier s cur")
  case None
  with assms show ?thesis using escalation_match_None [OF None, of cfg w] by simp
next
  case (Some t)
  with assms have "target_tier m = t" by (simp add: escalation_match_target)
  with Some show ?thesis by (simp add: getEscalatedTier_valid)
qed

lemma cost_match_elem:
  "m \<in> set (cost_match cfg s t) \<Longrightarrow> target_tier m \<in> strategy_tiers s"
  by (cases s) (auto simp: cost_match_def strategy_tiers_def split: if_splits option.splits)

lemma memory_match_elem:
  "m \<in> set (memory_match mt s task) \<Longrightarrow> target_tier m \<in> strategy_tiers s"
  by (auto simp: memory_match_def isValidTier_iff split: if_splits option.splits)

lemma collect_matches_elem:
  assumes "m \<in> set (collect_matches cfg s w mt task cur)"
  shows "m \<in> set (keyword_matches s (toLowerCase task) (keyword_rules cfg))
         \<or> m \<in> set (escalation_match cfg s w cur)
         \<or> m \<in> set (cost_match cfg s (toLowerCase task))
         \<or> m \<in> set (memory_match mt s task)"
  using assms by (auto simp: collect_matches_def Let_def split: if_splits)

lemma collect_matches_escalated:
  assumes "escalation_match cfg s w cur = [e]"
  shows "collect_matches cfg s w mt task cur
           = keyword_matches s (toLowerCase task) (keyword_rules cfg) @ [e]"
  using assms by (simp add: collect_matches_def Let_def)

lemma escalation_match_fires:
  assumes "ee_enabled (error_escalation cfg)"
      and "ee_threshold (error_escalation cfg) \<le> int (length w)"
      and "getEscalatedTier s cur = Some nxt"
  shows "escalation_match cfg s w cur =
           [\<lparr>rule_name = ''error_escalation'', matched_pattern = None, target_tier = nxt,
             priority = 200,
             reason = ErrorsInWindow (length w) (ee_window_minutes (error_escalation cfg))\<rparr>]"
proof -
  have "nxt \<noteq> []" using assms(3)
    by (cases s) (auto simp: getEscalatedTier_def split: if_splits)
  with assms show ?thesis unfolding escalation_match_def by simp
qed

lemma getEscalatedTier_table:
  "getEscalatedTier TwoTier ''primary'' = Some ''critical''
   \<and> getEscalatedTier TwoTier ''critical'' = None
   \<and> getEscalatedTier ThreeTier ''tier1'' = Some ''tier2''
   \<and> getEscalatedTier ThreeTier ''tier2'' = Some ''tier3''
   \<and> getEscalatedTier ThreeTier ''tier3'' = None"
  by (simp add: getEscalatedTier_def)


subsection \<open>Memory and the cost heuristic\<close>

text \<open>
  C2, as the code has it. Let no keyword rule match and let error escalation
  contribute nothing. If cost optimisation is enabled and a simple-task pattern
  occurs in the task, \<open>classifyTask\<close> returns the cost-optimisation match, for the
  lowest tier of the strategy, whatever the memory recommends: the memory is asked
  only when no match at all, that of the cost heuristic included, has been
  collected. If the cost heuristic contributes nothing and the memory recommends a
  tier valid for the strategy, \<open>classifyTask\<close> returns that tier.
\<close>

theorem cost_heuristic_before_memory:
  assumes cfg: "config re = Some cfg"
      and nokw: "keyword_matches (strategy re) (toLowerCase task) (keyword_rules cfg) = []"
      and noesc: "escalation_match cfg (strategy re) (errorWindow (cleanErrorWindow re now)) cur = []"
  shows "(\<forall>co p. cost_optimization cfg = Some co \<and> co_enabled co
              \<and> first_included (toLowerCase task) (co_simple_task_patterns co) = Some p
          \<longrightarrow> fst (classifyTask re mt task cur now) =
                Some \<lparr>rule_name = ''cost_optimization'', matched_pattern = Some p,
                      target_tier = getDefaultTier (strategy re), priority = 10,
                      reason = SimpleTask\<rparr>)
       \<and> (\<forall>f t. cost_match cfg (strategy re) (toLowerCase task) = []
              \<and> mt = Some f \<and> f task = Some t \<and> t \<noteq> [] \<and> isValidTier (strategy re) t
          \<longrightarrow> fst (classifyTask re mt task cur now) =
                Some \<lparr>rule_name = ''memory_based'', matched_pattern = None,
                      target_tier = t, priority = 30, reason = PreviousSimilar\<rparr>)"
proof -
  let ?w = "errorWindow (if ee_enabled (error_escalation cfg) then cleanErrorWindow re now else re)"
  have noesc': "escalation_match cfg (strategy re) ?w cur = []"
  proof (cases "ee_enabled (error_escalation cfg)")
    case True
    with noesc show ?thesis by simp
  next
    case False
    then show ?thesis unfolding escalation_match_def by simp
  qed
  have res: "fst (classifyTask re mt task cur now) =
      (let ms = collect_matches cfg (strategy re) ?w mt task cur
       in if ms = [] then None else Some (hd (sort_by_priority ms)))"
    using classifyTask_fst [OF cfg] .
  have one: "hd (sort_by_priority [m]) = m" for m
    by (simp add: sort_by_priority_def)
  have cm: "collect_matches cfg (strategy re) ?w mt task cur =
      (if cost_match cfg (strategy re) (toLowerCase task) = []
       then memory_match mt (strategy re) task
       else cost_match cfg (strategy re) (toLowerCase task))"
    using nokw noesc' by (simp add: collect_matches_def Let_def)
  have a: "fst (classifyTask re mt task cur now) =
                Some \<lparr>rule_name = ''cost_optimization'', matched_pattern = Some p,
                      target_tier = getDefaultTier (strategy re), priority = 10,
                      reason = SimpleTask\<rparr>"
    if "cost_optimization cfg = Some co" "co_enabled co"
       "first_included (toLowerCase task) (co_simple_task_patterns co) = Some p" for co p
  proof -
    have "cost_match cfg (strategy re) (toLowerCase task) =
            [\<lparr>rule_name = ''cost_optimization'', matched_pattern = Some p,
              target_tier = getDefaultTier (strategy re), priority = 10,
              reason = SimpleTask\<rparr>]"
      using that by (simp add: cost_match_def getDefaultTier_def)
    with res cm one show ?thesis by (simp add: Let_def)
  qed
  have b: "fst (classifyTask re mt task cur now) =
                Some \<lparr>rule_name = ''memory_based'', matched_pattern = None,
                      target_tier = t, priority = 30, reason = PreviousSimilar\<rparr>"
    if "cost_match cfg (strategy re) (toLowerCase task) = []"
       "mt = Some f" "f task = Some t" "t \<noteq> []" "isValidTier (strategy re) t" for f t
  proof -
    have "memory_match mt (strategy re) task =
            [\<lparr>rule_name = ''memory_based'', matched_pattern = None,
              target_tier = t, priority = 30, reason = PreviousSimilar\<rparr>]"
      using that by (simp add: memory_match_def)
    with res cm one that(1) show ?thesis by (simp add: Let_def)
  qed
  from a b show ?thesis by blast
qed


text \<open>Witness of C2: the default configuration, the task \<open>list files\<close>, a memory
  that recommends \<open>critical\<close>.\<close>

theorem cost_heuristic_before_memory_witness:
  "fst (classifyTask (engine_of [] TwoTier [])
          (Some (getRecommendedTier critical_memory)) ''list files'' ''primary'' 0) =
     Some \<lparr>rule_name = ''cost_optimization'', matched_pattern = Some ''list files'',
           target_tier = ''primary'', priority = 10, reason = SimpleTask\<rparr>
   \<and> fst (classifyTask (engine_of [] TwoTier [])
          (Some (getRecommendedTier critical_memory)) ''write a poem'' ''primary'' 0) =
     Some \<lparr>rule_name = ''memory_based'', matched_pattern = None,
           target_tier = ''critical'', priority = 30, reason = PreviousSimilar\<rparr>"
proof -
  let ?re = "engine_of [] TwoTier []"
  let ?cfg = "default_rules []"
  let ?co = "\<lparr>co_enabled = True,
         co_simple_task_patterns = [''list files'', ''show status'', ''get info'', ''read file''],
         co_action = ''suggest_lower_tier''\<rparr>"
  have cfg: "config ?re = Some ?cfg" by (simp add: engine_of_def)
  have kw: "keyword_matches (strategy ?re) (toLowerCase t) (keyword_rules ?cfg) = []" for t
    by (simp add: default_rules_def keyword_matches_def)
  have esc: "escalation_match ?cfg (strategy ?re) (errorWindow (cleanErrorWindow ?re 0)) c = []"
    for c
    by (simp add: escalation_match_def default_rules_def engine_of_def cleanErrorWindow_def)
  have co: "cost_optimization ?cfg = Some ?co" "co_enabled ?co"
    by (simp_all add: default_rules_def)
  have p: "first_included (toLowerCase ''list files'') (co_simple_task_patterns ?co)
             = Some ''list files''"
    by code_simp
  have d: "getDefaultTier (strategy ?re) = ''primary''"
    by (simp add: getDefaultTier_def engine_of_def)
  have nocost: "cost_match ?cfg (strategy ?re) (toLowerCase ''write a poem'') = []"
    by code_simp
  have mem: "getRecommendedTier critical_memory ''write a poem'' = Some ''critical''"
    by code_simp
  have valid: "isValidTier (strategy ?re) ''critical''"
    by (simp add: isValidTier_def getAvailableTiers_def engine_of_def)
  from cost_heuristic_before_memory [OF cfg kw esc,
      of "''list files''" "Some (getRecommendedTier critical_memory)" "''primary''"]
    co p d
  have one: "fst (classifyTask ?re (Some (getRecommendedTier critical_memory))
                    ''list files'' ''primary'' 0) =
     Some \<lparr>rule_name = ''cost_optimization'', matched_pattern = Some ''list files'',
           target_tier = ''primary'', priority = 10, reason = SimpleTask\<rparr>"
    by metis
  from cost_heuristic_before_memory [OF cfg kw esc,
      of "''write a poem''" "Some (getRecommendedTier critical_memory)" "''primary''"]
    nocost mem valid
  have two: "fst (classifyTask ?re (Some (getRecommendedTier critical_memory))
                    ''write a poem'' ''primary'' 0) =
     Some \<lparr>rule_name = ''memory_based'', matched_pattern = None,
           target_tier = ''critical'', priority = 30, reason = PreviousSimilar\<rparr>"
    by simp
  from one two show ?thesis by simp
qed

text \<open>Counterexample to C2 as stated: no keyword rule matches, escalation does not
  fire, the simple-task pattern \<open>list files\<close> occurs in the task and the memory
  recommends \<open>critical\<close>, valid for the 2-tier strategy; \<open>classifyTask\<close> returns
  \<open>primary\<close> by the cost heuristic.\<close>

theorem memory_beats_cost_heuristic_counterexample:
  "keyword_matches TwoTier (toLowerCase ''list files'') (keyword_rules (default_rules [])) = []
   \<and> escalation_match (default_rules []) TwoTier [] ''primary'' = []
   \<and> str_includes (toLowerCase ''list files'') (toLowerCase ''list files'')
   \<and> getRecommendedTier critical_memory ''list files'' = Some ''critical''
   \<and> isValidTier TwoTier ''critical''
   \<and> map_option target_tier
        (fst (classifyTask (engine_of [] TwoTier [])
                (Some (getRecommendedTier critical_memory)) ''list files'' ''primary'' 0))
       = Some ''primary''"
  by code_simp

subsection \<open>Error escalation\<close>

text \<open>
  C3, as the code has it. Let error escalation be enabled and the number of error
  times left in the window after cleaning be at least the threshold. If the
  current tier has a next tier in the escalation order of the strategy
  (primary to critical; tier1 to tier2 to tier3) and every keyword match
  has a priority below 200, the priority of escalation, then \<open>classifyTask\<close>
  returns the escalation match, targeting exactly that next tier. If the current
  tier has no next tier (critical, tier3), escalation contributes no match.
\<close>

theorem escalation_next_tier:
  assumes cfg: "config re = Some cfg"
      and en: "ee_enabled (error_escalation cfg)"
      and cnt: "ee_threshold (error_escalation cfg)
                  \<le> int (length (errorWindow (cleanErrorWindow re now)))"
  shows "(\<forall>nxt. getEscalatedTier (strategy re) cur = Some nxt
            \<and> (\<forall>m \<in> set (keyword_matches (strategy re) (toLowerCase task) (keyword_rules cfg)).
                  priority m < 200)
          \<longrightarrow> fst (classifyTask re mt task cur now) =
                Some \<lparr>rule_name = ''error_escalation'', matched_pattern = None,
                      target_tier = nxt, priority = 200,
                      reason = ErrorsInWindow (length (errorWindow (cleanErrorWindow re now)))
                                 (ee_window_minutes (error_escalation cfg))\<rparr>)
       \<and> (getEscalatedTier (strategy re) cur = None
          \<longrightarrow> escalation_match cfg (strategy re) (errorWindow (cleanErrorWindow re now)) cur = [])
       \<and> getEscalatedTier TwoTier ''primary'' = Some ''critical''
       \<and> getEscalatedTier TwoTier ''critical'' = None
       \<and> getEscalatedTier ThreeTier ''tier1'' = Some ''tier2''
       \<and> getEscalatedTier ThreeTier ''tier2'' = Some ''tier3''
       \<and> getEscalatedTier ThreeTier ''tier3'' = None"
proof -
  let ?w = "errorWindow (cleanErrorWindow re now)"
  let ?kw = "keyword_matches (strategy re) (toLowerCase task) (keyword_rules cfg)"
  have first: "fst (classifyTask re mt task cur now) =
                Some \<lparr>rule_name = ''error_escalation'', matched_pattern = None,
                      target_tier = nxt, priority = 200,
                      reason = ErrorsInWindow (length ?w)
                                 (ee_window_minutes (error_escalation cfg))\<rparr>"
    if nx: "getEscalatedTier (strategy re) cur = Some nxt"
      and low: "\<forall>m \<in> set ?kw. priority m < 200" for nxt
  proof -
    let ?e = "\<lparr>rule_name = ''error_escalation'', matched_pattern = None,
                target_tier = nxt, priority = 200,
                reason = ErrorsInWindow (length ?w)
                           (ee_window_minutes (error_escalation cfg))\<rparr>"
    have esc: "escalation_match cfg (strategy re) ?w cur = [?e]"
      using escalation_match_fires [OF en cnt nx] .
    have ms: "collect_matches cfg (strategy re) ?w mt task cur = ?kw @ [?e]"
      using collect_matches_escalated [OF esc] .
    have "hd (sort_by_priority (?kw @ [?e])) = ?e"
    proof (rule hd_sort_by_priority_unique)
      show "?e \<in> set (?kw @ [?e])" by simp
      show "\<forall>y \<in> set (?kw @ [?e]). y \<noteq> ?e \<longrightarrow> priority y < priority ?e"
        using low by auto
    qed
    then show ?thesis
      using classifyTask_fst [OF cfg, of mt task cur now] en ms by (simp add: Let_def)
  qed
  have second: "escalation_match cfg (strategy re) ?w cur = []"
    if "getEscalatedTier (strategy re) cur = None"
    using that by (rule escalation_match_None)
  from first second getEscalatedTier_table show ?thesis by blast
qed


text \<open>Witness of C3: three errors in the window, strategy 3-tier, current tier
  \<open>tier1\<close>, a task that the architecture rule (priority 100) matches.\<close>

theorem escalation_next_tier_witness:
  "fst (classifyTask (engine_of [arch_rule] ThreeTier [1, 2, 3]) None
          ''refactor the parser'' ''tier1'' 5) =
     Some \<lparr>rule_name = ''error_escalation'', matched_pattern = None,
           target_tier = ''tier2'', priority = 200, reason = ErrorsInWindow 3 30\<rparr>
   \<and> escalation_match (default_rules [arch_rule]) ThreeTier [1, 2, 3] ''tier3'' = []"
proof -
  let ?re = "engine_of [arch_rule] ThreeTier [1, 2, 3]"
  let ?cfg = "default_rules [arch_rule]"
  have cfg: "config ?re = Some ?cfg" by (simp add: engine_of_def)
  have en: "ee_enabled (error_escalation ?cfg)" by (simp add: default_rules_def)
  have w: "errorWindow (cleanErrorWindow ?re 5) = [1, 2, 3]"
    by (simp add: cleanErrorWindow_def engine_of_def default_rules_def)
  have cnt: "ee_threshold (error_escalation ?cfg)
               \<le> int (length (errorWindow (cleanErrorWindow ?re 5)))"
    by (simp add: w) (simp add: default_rules_def)
  have s: "strategy ?re = ThreeTier" by (simp add: engine_of_def)
  have low: "\<forall>m \<in> set (keyword_matches (strategy ?re) (toLowerCase ''refactor the parser'')
                          (keyword_rules ?cfg)). priority m < 200"
    by code_simp
  have wm: "ee_window_minutes (error_escalation ?cfg) = 30" by (simp add: default_rules_def)
  from escalation_next_tier [OF cfg en cnt, of "''tier1''" "''refactor the parser''" None]
  have "fst (classifyTask ?re None ''refactor the parser'' ''tier1'' 5) =
     Some \<lparr>rule_name = ''error_escalation'', matched_pattern = None,
           target_tier = ''tier2'', priority = 200, reason = ErrorsInWindow 3 30\<rparr>"
    using low by (simp add: s w wm)
  moreover from escalation_next_tier [OF cfg en cnt, of "''tier3''" "''x''" None]
  have "escalation_match ?cfg ThreeTier [1, 2, 3] ''tier3'' = []"
    by (simp add: s w)
  ultimately show ?thesis by simp
qed

text \<open>Counterexample to C3 as stated: escalation is enabled, three errors are in the
  window with threshold three, the current tier is \<open>tier1\<close>, and a keyword rule of
  priority 250 matches; \<open>classifyTask\<close> returns the keyword match for \<open>tier3\<close>, not
  the escalation to \<open>tier2\<close>.\<close>

theorem escalation_wins_counterexample:
  "ee_enabled (error_escalation (default_rules [urgent_rule]))
   \<and> ee_threshold (error_escalation (default_rules [urgent_rule]))
       \<le> int (length (errorWindow (cleanErrorWindow (engine_of [urgent_rule] ThreeTier [1, 2, 3]) 5)))
   \<and> fst (classifyTask (engine_of [urgent_rule] ThreeTier [1, 2, 3]) None
            ''urgent: fix the build'' ''tier1'' 5) =
       Some \<lparr>rule_name = ''urgent_keywords'', matched_pattern = Some ''urgent'',
             target_tier = ''tier3'', priority = 250,
             reason = MatchedPattern ''urgent'' ''urgent_keywords''\<rparr>"
  by code_simp

subsection \<open>The tier returned belongs to the strategy\<close>

text \<open>
  C4, as the code has it. The target of a keyword rule is taken from the
  configuration as it is. If every keyword rule's non-empty target for the active
  strategy is a tier of that strategy, then \<open>classifyTask\<close> returns none or a match
  whose tier belongs to the strategy's tier set (primary, critical for 2-tier;
  tier1, tier2, tier3 for 3-tier).
\<close>

theorem classify_tier_in_strategy:
  assumes "\<forall>cfg. config re = Some cfg \<longrightarrow>
             (\<forall>rule \<in> set (keyword_rules cfg). \<forall>t. kr_target_tier rule (strategy re) = Some t
                 \<longrightarrow> t \<noteq> [] \<longrightarrow> t \<in> strategy_tiers (strategy re))"
  shows "fst (classifyTask re mt task cur now) = None
         \<or> (\<exists>m. fst (classifyTask re mt task cur now) = Some m
                \<and> target_tier m \<in> strategy_tiers (strategy re))"
proof (cases "config re")
  case None
  then show ?thesis by (simp add: classifyTask_def)
next
  case (Some cfg)
  define ms where "ms = collect_matches cfg (strategy re)
      (errorWindow (if ee_enabled (error_escalation cfg) then cleanErrorWindow re now else re))
      mt task cur"
  have res: "fst (classifyTask re mt task cur now) =
               (if ms = [] then None else Some (hd (sort_by_priority ms)))"
    using classifyTask_fst [OF Some] by (simp add: ms_def Let_def)
  show ?thesis
  proof (cases "ms = []")
    case True
    with res show ?thesis by simp
  next
    case False
    let ?m = "hd (sort_by_priority ms)"
    have "?m \<in> set ms" using False by (rule hd_sort_by_priority_in)
    then consider
        "?m \<in> set (keyword_matches (strategy re) (toLowerCase task) (keyword_rules cfg))"
      | "target_tier ?m \<in> strategy_tiers (strategy re)"
      unfolding ms_def
      using collect_matches_elem escalation_match_elem cost_match_elem memory_match_elem
      by blast
    then have "target_tier ?m \<in> strategy_tiers (strategy re)"
    proof cases
      case 1
      then obtain rule where "rule \<in> set (keyword_rules cfg)"
        and "kr_target_tier rule (strategy re) = Some (target_tier ?m)"
        and "target_tier ?m \<noteq> []"
        using keyword_matches_elem by blast
      with assms Some show ?thesis by blast
    next
      case 2
      then show ?thesis .
    qed
    with res False show ?thesis by simp
  qed
qed


text \<open>Witness of C4: the architecture rule of the default configuration under the
  2-tier strategy.\<close>

theorem classify_tier_in_strategy_witness:
  "fst (classifyTask (engine_of [arch_rule] TwoTier []) None
          ''Review this architecture and propose improvements'' ''primary'' 0) \<noteq> None
   \<and> target_tier (the (fst (classifyTask (engine_of [arch_rule] TwoTier []) None
          ''Review this architecture and propose improvements'' ''primary'' 0)))
       \<in> strategy_tiers TwoTier"
proof -
  let ?re = "engine_of [arch_rule] TwoTier []"
  have h: "\<forall>cfg. config ?re = Some cfg \<longrightarrow>
             (\<forall>rule \<in> set (keyword_rules cfg). \<forall>t. kr_target_tier rule (strategy ?re) = Some t
                 \<longrightarrow> t \<noteq> [] \<longrightarrow> t \<in> strategy_tiers (strategy ?re))"
    by (simp add: engine_of_def default_rules_def arch_rule_def strategy_tiers_def)
  have ne: "fst (classifyTask ?re None
          ''Review this architecture and propose improvements'' ''primary'' 0) \<noteq> None"
    by code_simp
  have s: "strategy ?re = TwoTier" by (simp add: engine_of_def)
  from classify_tier_in_strategy [OF h,
      of None "''Review this architecture and propose improvements''" "''primary''" 0] ne s
  show ?thesis by auto
qed

text \<open>Counterexample to C4 as stated: a rule configuration whose target for the
  2-tier strategy is \<open>tier3\<close>; \<open>classifyTask\<close> returns \<open>tier3\<close> under the 2-tier
  strategy.\<close>

theorem classify_tier_in_strategy_counterexample:
  "fst (classifyTask (engine_of [stray_rule] TwoTier []) None ''Deploy it'' ''primary'' 0) =
     Some \<lparr>rule_name = ''stray'', matched_pattern = Some ''deploy'', target_tier = ''tier3'',
           priority = 100, reason = MatchedPattern ''deploy'' ''stray''\<rparr>
   \<and> ''tier3'' \<notin> strategy_tiers TwoTier"
  by code_simp
section \<open>The usage ledger\<close>

subsection \<open>Status\<close>

lemma getStatus_fields:
  "percent_used (getStatus d mk limit ths) =
     fdiv (Math_round (fmul (percentUsed (case getMonthlyUsage d mk of None \<Rightarrow> 0 | Some m \<Rightarrow> total_cost m) limit) 10)) 10"
  "triggered_alerts (getStatus d mk limit ths) =
     sort_key (\<lambda>t. - percent t)
       (filter (\<lambda>t. percent t \<le> percentUsed (case getMonthlyUsage d mk of None \<Rightarrow> 0 | Some m \<Rightarrow> total_cost m) limit)
          (case ths of None \<Rightarrow> [\<lparr>percent = 80, action = ''notify_user''\<rparr>] | Some ts \<Rightarrow> ts))"
  "is_blocked (getStatus d mk limit ths) =
     list_ex (\<lambda>t. action t = ''block_high_tier''
                 \<and> percent t \<le> percentUsed (case getMonthlyUsage d mk of None \<Rightarrow> 0 | Some m \<Rightarrow> total_cost m) limit)
       (triggered_alerts (getStatus d mk limit ths))"
  by (simp_all add: getStatus_def Let_def)

lemma sorted_desc_rev:
  fixes f :: "'a \<Rightarrow> real"
  shows "sorted (map (\<lambda>t. - f t) xs) \<Longrightarrow> sorted (rev (map f xs))"
  by (induction xs) (auto simp: sorted_append)

text \<open>
  C5, as the code has it. The percentage \<open>getStatus\<close> works with is computed in
  binary64: the quotient of the month's spending by the limit, rounded, times 100,
  rounded again; it is 0 when the limit is at most 0. The status's \<open>percent_used\<close> is
  that percentage brought to one decimal place by \<open>Math.round(p * 10) / 10\<close>.
  \<open>triggered_alerts\<close> contains exactly the thresholds (those configured, or the
  single default 80 per cent \<open>notify_user\<close> when none is passed) whose percent is at
  most the computed percentage, not the reported one, sorted descending by percent;
  \<open>is_blocked\<close> is true if and only if some triggered alert's action is
  \<open>block_high_tier\<close>.
\<close>

theorem getStatus_status:
  fixes d mk limit ths
  defines "st \<equiv> getStatus d mk limit ths"
      and "spent \<equiv> (case getMonthlyUsage d mk of None \<Rightarrow> 0 | Some m \<Rightarrow> total_cost m)"
      and "configured \<equiv> (case ths of None \<Rightarrow> [\<lparr>percent = 80, action = ''notify_user''\<rparr>]
                                   | Some ts \<Rightarrow> ts)"
  shows "percent_used st = fdiv (Math_round (fmul (percentUsed spent limit) 10)) 10
       \<and> (limit \<le> 0 \<longrightarrow> percentUsed spent limit = 0)
       \<and> (0 < limit \<longrightarrow> percentUsed spent limit = fmul (fdiv spent limit) 100)
       \<and> mset (triggered_alerts st)
           = mset (filter (\<lambda>t. percent t \<le> percentUsed spent limit) configured)
       \<and> sorted (rev (map percent (triggered_alerts st)))
       \<and> (is_blocked st \<longleftrightarrow> (\<exists>t \<in> set (triggered_alerts st). action t = ''block_high_tier''))"
proof -
  let ?pct = "percentUsed spent limit"
  have pu: "percent_used st = fdiv (Math_round (fmul ?pct 10)) 10"
    unfolding st_def spent_def by (rule getStatus_fields(1))
  have ta: "triggered_alerts st =
      sort_key (\<lambda>t. - percent t) (filter (\<lambda>t. percent t \<le> ?pct) configured)"
    unfolding st_def spent_def configured_def by (rule getStatus_fields(2))
  have ib: "is_blocked st =
      list_ex (\<lambda>t. action t = ''block_high_tier'' \<and> percent t \<le> ?pct) (triggered_alerts st)"
    unfolding st_def spent_def by (rule getStatus_fields(3))
  have ms: "mset (triggered_alerts st) = mset (filter (\<lambda>t. percent t \<le> ?pct) configured)"
    unfolding ta by simp
  have "sorted (map (\<lambda>t. - percent t) (triggered_alerts st))"
    unfolding ta by simp
  then have srt: "sorted (rev (map percent (triggered_alerts st)))"
    by (rule sorted_desc_rev)
  have inpct: "percent t \<le> ?pct" if "t \<in> set (triggered_alerts st)" for t
    using that unfolding ta by simp
  have blk: "is_blocked st \<longleftrightarrow> (\<exists>t \<in> set (triggered_alerts st). action t = ''block_high_tier'')"
    unfolding ib list_ex_iff using inpct by blast
  show ?thesis
    using pu ms srt blk by (simp add: percentUsed_def)
qed

text \<open>The status after one recorded call, in the month of the call.\<close>

lemma spent_single_call:
  "(case getMonthlyUsage (record_all empty_usage [usage_call mk t c]) mk of
      None \<Rightarrow> 0 | Some m \<Rightarrow> total_cost m) = fl c"
  by (simp add: record_all_def CostTracker_record_def usage_call_def empty_usage_def
        getMonthlyUsage_def Let_def fadd_def)

lemma getStatus_single_call:
  "percent_used (getStatus (record_all empty_usage [usage_call mk t c]) mk limit ths) =
     fdiv (Math_round (fmul (percentUsed (fl c) limit) 10)) 10"
  "triggered_alerts (getStatus (record_all empty_usage [usage_call mk t c]) mk limit ths) =
     sort_key (\<lambda>t. - percent t)
       (filter (\<lambda>t. percent t \<le> percentUsed (fl c) limit)
          (case ths of None \<Rightarrow> [\<lparr>percent = 80, action = ''notify_user''\<rparr>] | Some ts \<Rightarrow> ts))"
  "is_blocked (getStatus (record_all empty_usage [usage_call mk t c]) mk limit ths) =
     list_ex (\<lambda>t. action t = ''block_high_tier'' \<and> percent t \<le> percentUsed (fl c) limit)
       (triggered_alerts (getStatus (record_all empty_usage [usage_call mk t c]) mk limit ths))"
  by (simp_all only: getStatus_fields spent_single_call)

text \<open>The percentages of the examples: 10.50 of 10, 105 of 100, 29 of 100, 1 of 3
  and 1 of 1.\<close>

lemma percentUsed_105: "percentUsed (21 / 2) 10 = 105"
proof -
  have q: "fdiv (21 / 2) 10 = 4728779608739021 / 4503599627370496"
    unfolding fdiv_def using fl_at [of 0 "21 / 2 / 10"]
    by (simp add: pow2_def round_half_even_def Let_def)
  have p: "fmul (4728779608739021 / 4503599627370496) 100 = 105"
    unfolding fmul_def using fl_at [of 6 "4728779608739021 / 4503599627370496 * 100"]
    by (simp add: pow2_def round_half_even_def Let_def)
  show ?thesis unfolding percentUsed_def q p by simp
qed

lemma percentUsed_105_of_100: "percentUsed 105 100 = 105"
proof -
  have q: "fdiv 105 100 = 4728779608739021 / 4503599627370496"
    unfolding fdiv_def using fl_at [of 0 "105 / 100"]
    by (simp add: pow2_def round_half_even_def Let_def)
  have p: "fmul (4728779608739021 / 4503599627370496) 100 = 105"
    unfolding fmul_def using fl_at [of 6 "4728779608739021 / 4503599627370496 * 100"]
    by (simp add: pow2_def round_half_even_def Let_def)
  show ?thesis unfolding percentUsed_def q p by simp
qed

lemma percentUsed_29: "percentUsed 29 100 = 8162774324609023 / 281474976710656"
proof -
  have q: "fdiv 29 100 = 5224175567749775 / 18014398509481984"
    unfolding fdiv_def using fl_at [of "- 2" "29 / 100"]
    by (simp add: pow2_def round_half_even_def Let_def)
  have p: "fmul (5224175567749775 / 18014398509481984) 100
                   = 8162774324609023 / 281474976710656"
    unfolding fmul_def using fl_at [of 4 "5224175567749775 / 18014398509481984 * 100"]
    by (simp add: pow2_def round_half_even_def Let_def)
  show ?thesis unfolding percentUsed_def q p by simp
qed

lemma percentUsed_third: "percentUsed 1 3 = 2345624805922133 / 70368744177664"
proof -
  have q: "fdiv 1 3 = 6004799503160661 / 18014398509481984"
    unfolding fdiv_def using fl_at [of "- 2" "1 / 3"]
    by (simp add: pow2_def round_half_even_def Let_def)
  have p: "fmul (6004799503160661 / 18014398509481984) 100
                   = 2345624805922133 / 70368744177664"
    unfolding fmul_def using fl_at [of 5 "6004799503160661 / 18014398509481984 * 100"]
    by (simp add: pow2_def round_half_even_def Let_def)
  show ?thesis unfolding percentUsed_def q p by simp
qed

lemma percentUsed_all: "percentUsed 1 1 = 100"
  by (simp add: percentUsed_def fdiv_def fmul_def fl_numeral)

lemma tenth_of_rounded:
  "fdiv (Math_round (fmul 105 10)) 10 = 105"
  "fdiv (Math_round (fmul (8162774324609023 / 281474976710656) 10)) 10 = 29"
  "fdiv (Math_round (fmul (2345624805922133 / 70368744177664) 10)) 10 = fl (333 / 10)"
proof -
  show "fdiv (Math_round (fmul 105 10)) 10 = 105"
    by (simp add: fmul_def fdiv_def Math_round_def fl_numeral)
  have a: "fmul (8162774324609023 / 281474976710656) 10 = 5101733952880639 / 17592186044416"
    unfolding fmul_def using fl_at [of 8 "8162774324609023 / 281474976710656 * 10"]
    by (simp add: pow2_def round_half_even_def Let_def)
  show "fdiv (Math_round (fmul (8162774324609023 / 281474976710656) 10)) 10 = 29"
    unfolding a by (simp add: fdiv_def Math_round_def fl_numeral)
  have b: "fmul (2345624805922133 / 70368744177664) 10 = 1466015503701333 / 4398046511104"
    unfolding fmul_def using fl_at [of 8 "2345624805922133 / 70368744177664 * 10"]
    by (simp add: pow2_def round_half_even_def Let_def)
  show "fdiv (Math_round (fmul (2345624805922133 / 70368744177664) 10)) 10 = fl (333 / 10)"
    unfolding b by (simp add: fdiv_def Math_round_def)
qed

text \<open>Witness of C5: limit 10, spent 10.50, the default thresholds: 105 per cent
  used and blocked.\<close>

theorem getStatus_status_witness:
  "percent_used (getStatus (record_all empty_usage [usage_call (2026, 11) ''critical'' (21 / 2)])
       (2026, 11) 10 (Some default_alerts)) = 105
   \<and> is_blocked (getStatus (record_all empty_usage [usage_call (2026, 11) ''critical'' (21 / 2)])
       (2026, 11) 10 (Some default_alerts))"
proof -
  let ?d = "record_all empty_usage [usage_call (2026, 11) ''critical'' (21 / 2)]"
  let ?st = "getStatus ?d (2026, 11) 10 (Some default_alerts)"
  have f: "fl (21 / 2) = 21 / 2"
    using fl_at [of 3 "21 / 2"] by (simp add: pow2_def round_half_even_def Let_def)
  have sp: "(case getMonthlyUsage ?d (2026, 11) of None \<Rightarrow> 0 | Some m \<Rightarrow> total_cost m) = 21 / 2"
    by (simp only: spent_single_call f)
  note T = getStatus_status [of ?d "(2026, 11)" 10 "Some default_alerts", unfolded sp]
  from T have "percent_used ?st = fdiv (Math_round (fmul (percentUsed (21 / 2) 10) 10)) 10"
    by blast
  then have a: "percent_used ?st = 105"
    by (simp only: percentUsed_105 tenth_of_rounded)
  from T have "mset (triggered_alerts ?st)
      = mset (filter (\<lambda>t. percent t \<le> percentUsed (21 / 2) 10)
                (case Some default_alerts of
                   None \<Rightarrow> [\<lparr>percent = 80, action = ''notify_user''\<rparr>] | Some ts \<Rightarrow> ts))"
    by blast
  then have "mset (triggered_alerts ?st) = mset default_alerts"
    by (simp add: percentUsed_105 default_alerts_def)
  then have "set (triggered_alerts ?st) = set default_alerts" by (rule mset_eq_setD)
  then have b: "\<exists>t \<in> set (triggered_alerts ?st). action t = ''block_high_tier''"
    by (simp add: default_alerts_def)
  from T have "is_blocked ?st \<longleftrightarrow> (\<exists>t \<in> set (triggered_alerts ?st). action t = ''block_high_tier'')"
    by blast
  with b have c: "is_blocked ?st" by simp
  from a c show ?thesis by simp
qed

text \<open>
  Counterexamples to C5 as stated. Spent 29 of a limit of 100, one threshold of 29
  per cent that blocks: the computed percentage is \<open>28.999999999999996\<close>, so the
  threshold is not triggered and nothing is blocked, while \<open>percent_used\<close> is
  reported as 29. Spent 1 of a limit of 3: \<open>percent_used\<close> is the binary64 number
  nearest to 33.3, neither \<open>100/3\<close> nor the computed percentage, and the threshold
  of 33.3125 per cent is triggered although it is above the reported \<open>percent_used\<close>.
  With no thresholds passed, the default threshold of 80 per cent is triggered.
\<close>

theorem percent_used_exact_counterexample:
  "percentUsed 29 100 = 8162774324609023 / 281474976710656
   \<and> percentUsed 29 100 < 29
   \<and> percent_used (getStatus (record_all empty_usage [usage_call (2026, 11) ''critical'' 29])
       (2026, 11) 100 (Some [\<lparr>percent = 29, action = ''block_high_tier''\<rparr>])) = 29
   \<and> triggered_alerts (getStatus (record_all empty_usage [usage_call (2026, 11) ''critical'' 29])
       (2026, 11) 100 (Some [\<lparr>percent = 29, action = ''block_high_tier''\<rparr>])) = []
   \<and> \<not> is_blocked (getStatus (record_all empty_usage [usage_call (2026, 11) ''critical'' 29])
       (2026, 11) 100 (Some [\<lparr>percent = 29, action = ''block_high_tier''\<rparr>]))
   \<and> percent_used (getStatus (record_all empty_usage [usage_call (2026, 11) ''critical'' 1])
       (2026, 11) 3 (Some [\<lparr>percent = 533 / 16, action = ''notify_user''\<rparr>])) = fl (333 / 10)
   \<and> fl (333 / 10) \<noteq> 100 / 3
   \<and> fl (333 / 10) \<noteq> percentUsed 1 3
   \<and> triggered_alerts (getStatus (record_all empty_usage [usage_call (2026, 11) ''critical'' 1])
       (2026, 11) 3 (Some [\<lparr>percent = 533 / 16, action = ''notify_user''\<rparr>]))
       = [\<lparr>percent = 533 / 16, action = ''notify_user''\<rparr>]
   \<and> fl (333 / 10) < 533 / 16
   \<and> triggered_alerts (getStatus (record_all empty_usage [usage_call (2026, 11) ''critical'' 1])
       (2026, 11) 1 None)
       = [\<lparr>percent = 80, action = ''notify_user''\<rparr>]"
proof -
  have f: "fl 29 = 29" by (simp add: fl_numeral)
  have a: "percentUsed 29 100 = 8162774324609023 / 281474976710656"
    by (rule percentUsed_29)
  have b: "percentUsed 29 100 < 29" by (simp add: percentUsed_29)
  have c: "percent_used (getStatus (record_all empty_usage [usage_call (2026, 11) ''critical'' 29])
       (2026, 11) 100 (Some [\<lparr>percent = 29, action = ''block_high_tier''\<rparr>])) = 29"
    by (simp only: getStatus_single_call f percentUsed_29 tenth_of_rounded)
  have d: "triggered_alerts (getStatus (record_all empty_usage [usage_call (2026, 11) ''critical'' 29])
       (2026, 11) 100 (Some [\<lparr>percent = 29, action = ''block_high_tier''\<rparr>])) = []"
    by (simp add: getStatus_single_call f percentUsed_29)
  have e: "\<not> is_blocked (getStatus (record_all empty_usage [usage_call (2026, 11) ''critical'' 29])
       (2026, 11) 100 (Some [\<lparr>percent = 29, action = ''block_high_tier''\<rparr>]))"
    by (simp add: getStatus_single_call(3) d)
  have g: "percent_used (getStatus (record_all empty_usage [usage_call (2026, 11) ''critical'' 1])
       (2026, 11) 3 (Some [\<lparr>percent = 533 / 16, action = ''notify_user''\<rparr>])) = fl (333 / 10)"
    by (simp only: getStatus_single_call fl_one percentUsed_third tenth_of_rounded)
  have h: "fl (333 / 10) \<noteq> 100 / 3" "fl (333 / 10) \<noteq> percentUsed 1 3"
    "fl (333 / 10) < 533 / 16"
    by (simp_all add: fl_33_3 percentUsed_third)
  have i: "triggered_alerts (getStatus (record_all empty_usage [usage_call (2026, 11) ''critical'' 1])
       (2026, 11) 3 (Some [\<lparr>percent = 533 / 16, action = ''notify_user''\<rparr>]))
       = [\<lparr>percent = 533 / 16, action = ''notify_user''\<rparr>]"
    by (simp add: getStatus_single_call percentUsed_third)
  have j: "triggered_alerts (getStatus (record_all empty_usage [usage_call (2026, 11) ''critical'' 1])
       (2026, 11) 1 None)
       = [\<lparr>percent = 80, action = ''notify_user''\<rparr>]"
    by (simp add: getStatus_single_call percentUsed_all)
  from a b c d e g h i j show ?thesis by blast
qed

subsection \<open>Recording\<close>


lemma fsum_Nil [simp]: "fsum [] = 0"
  by (simp add: fsum_def)















section \<open>Session memory\<close>

subsection \<open>Pruning keeps the most recent\<close>

lemma takeLast_Nil [simp]: "takeLast n [] = []"
  by (simp add: takeLast_def)

lemma prune_oldest_takeLast: "prune_oldest n xs = takeLast n xs"
proof (induction n xs rule: prune_oldest.induct)
  case (1 bound xs)
  show ?case
  proof (cases "length xs > bound")
    case True
    then obtain y ys where xs: "xs = y # ys" by (cases xs) auto
    from True have "prune_oldest bound xs = prune_oldest bound (tl xs)"
      by (subst prune_oldest.simps) simp
    also from True 1 have "\<dots> = takeLast bound (tl xs)" by simp
    also have "\<dots> = takeLast bound xs"
      using True by (simp add: xs takeLast_def Suc_diff_le)
    finally show ?thesis .
  next
    case False
    then have "prune_oldest bound xs = xs" by (subst prune_oldest.simps) simp
    with False show ?thesis by (simp add: takeLast_def)
  qed
qed

lemma takeLast_snoc:
  "takeLast n (xs @ [x]) = (if n = 0 then [] else takeLast (n - 1) xs @ [x])"
  by (cases n) (auto simp: takeLast_def)

lemma map_takeLast: "map f (takeLast n xs) = takeLast n (map f xs)"
  by (simp add: takeLast_def drop_map)

lemma length_takeLast: "length (takeLast n xs) = min n (length xs)"
  by (auto simp: takeLast_def)

lemma takeLast_takeLast_append: "takeLast n (takeLast n xs @ ys) = takeLast n (xs @ ys)"
  by (cases "length xs \<le> n") (auto simp: takeLast_def add.commute)

lemma takeLast_nonempty: "0 < n \<Longrightarrow> xs \<noteq> [] \<Longrightarrow> takeLast n xs \<noteq> []"
  by (cases xs rule: rev_cases) (auto simp: takeLast_snoc)

lemma last_takeLast: "0 < n \<Longrightarrow> xs \<noteq> [] \<Longrightarrow> last (takeLast n xs) = last xs"
  by (cases xs rule: rev_cases) (auto simp: takeLast_snoc)

lemma takeLast_butlast_snoc:
  "0 < n \<Longrightarrow> xs \<noteq> [] \<Longrightarrow> takeLast n (butlast xs @ [y]) = butlast (takeLast n xs) @ [y]"
  by (cases xs rule: rev_cases) (auto simp: takeLast_snoc)

lemma find_last_distinct:
  "distinct (map f xs) \<Longrightarrow> xs \<noteq> [] \<Longrightarrow> find (\<lambda>s. f s = f (last xs)) xs = Some (last xs)"
  by (induction xs) auto

lemma update_first_last_distinct:
  "distinct (map f xs) \<Longrightarrow> xs \<noteq> [] \<Longrightarrow>
     update_first (\<lambda>s. f s = f (last xs)) g xs = butlast xs @ [g (last xs)]"
  by (induction xs) auto

lemma tracks_nonempty: "tracks tr h \<Longrightarrow> sessions (data tr) \<noteq> []"
proof
  assume t: "tracks tr h" and e: "sessions (data tr) = []"
  from t have "takeLast (maxSessions tr) h \<noteq> []"
    by (simp add: tracks_def takeLast_nonempty)
  moreover from t e have "map (takeLast (maxEntriesPerSession tr)) (takeLast (maxSessions tr) h) = []"
    by (simp add: tracks_def)
  ultimately show False by simp
qed

lemma tracks_current:
  assumes "tracks tr h"
  shows "getCurrentSession tr = Some (last (sessions (data tr)))"
  using assms tracks_nonempty [OF assms]
  by (simp add: getCurrentSession_def tracks_def find_last_distinct)

lemma tracks_current_entries:
  assumes "tracks tr h"
  shows "entries (last (sessions (data tr))) = takeLast (maxEntriesPerSession tr) (last h)"
proof -
  have ne: "sessions (data tr) \<noteq> []" using assms by (rule tracks_nonempty)
  have "entries (last (sessions (data tr))) = last (map entries (sessions (data tr)))"
    using ne by (simp add: last_map)
  also have "\<dots> = last (map (takeLast (maxEntriesPerSession tr)) (takeLast (maxSessions tr) h))"
    using assms by (simp add: tracks_def)
  also have "\<dots> = takeLast (maxEntriesPerSession tr) (last (takeLast (maxSessions tr) h))"
    using assms by (simp add: last_map takeLast_nonempty tracks_def)
  also have "\<dots> = takeLast (maxEntriesPerSession tr) (last h)"
    using assms by (simp add: last_takeLast tracks_def)
  finally show ?thesis .
qed

lemma tracks_new_tracker: "0 < mxS \<Longrightarrow> tracks (new_tracker mxE mxS now) [[]]"
  by (simp add: tracks_def new_tracker_def startNewSession_def Let_def prune_oldest_takeLast
        takeLast_def)

lemma tracks_startNewSession:
  assumes "tracks tr h"
  shows "tracks (startNewSession tr now) (h @ [[]])"
proof -
  let ?new = "\<lparr>session_id = uuid_counter tr, entries = [], created_at = now, last_updated = now\<rparr>"
  let ?ss = "sessions (data tr)"
  let ?mxS = "maxSessions tr"
  let ?mxE = "maxEntriesPerSession tr"
  have pos: "0 < ?mxS" using assms by (simp add: tracks_def)
  have ss': "sessions (data (startNewSession tr now)) = takeLast ?mxS (?ss @ [?new])"
    by (simp add: startNewSession_def Let_def prune_oldest_takeLast)
  have e: "map entries (takeLast ?mxS (?ss @ [?new]))
             = map (takeLast ?mxE) (takeLast ?mxS (h @ [[]]))"
  proof -
    have "map entries (takeLast ?mxS (?ss @ [?new]))
            = takeLast ?mxS (map entries ?ss @ [[]])"
      by (simp add: map_takeLast)
    also have "\<dots> = takeLast ?mxS (takeLast ?mxS (map (takeLast ?mxE) h) @ [[]])"
      using assms by (simp add: tracks_def map_takeLast)
    also have "\<dots> = takeLast ?mxS (map (takeLast ?mxE) h @ [[]])"
      by (rule takeLast_takeLast_append)
    also have "\<dots> = map (takeLast ?mxE) (takeLast ?mxS (h @ [[]]))"
      by (simp add: map_takeLast)
    finally show ?thesis .
  qed
  have l: "last (takeLast ?mxS (?ss @ [?new])) = ?new"
    using pos by (simp add: last_takeLast)
  have fresh: "uuid_counter tr \<notin> session_id ` set ?ss"
    using assms by (auto simp: tracks_def list_all_iff)
  have d: "distinct (map session_id (takeLast ?mxS (?ss @ [?new])))"
  proof -
    have "distinct (map session_id (?ss @ [?new]))"
      using assms fresh by (simp add: tracks_def)
    then have "distinct (drop (length (?ss @ [?new]) - ?mxS) (map session_id (?ss @ [?new])))"
      by (rule distinct_drop)
    then show ?thesis by (simp only: takeLast_def drop_map)
  qed
  have b: "list_all (\<lambda>s. session_id s < Suc (uuid_counter tr)) (takeLast ?mxS (?ss @ [?new]))"
  proof -
    have "list_all (\<lambda>s. session_id s < Suc (uuid_counter tr)) (?ss @ [?new])"
      using assms by (auto simp: tracks_def list_all_iff less_Suc_eq)
    then show ?thesis
      by (auto simp: takeLast_def list_all_iff dest: in_set_dropD)
  qed
  have c: "current_session_id (data (startNewSession tr now)) = Some (uuid_counter tr)"
    and u: "uuid_counter (startNewSession tr now) = Suc (uuid_counter tr)"
    and m: "maxSessions (startNewSession tr now) = ?mxS"
           "maxEntriesPerSession (startNewSession tr now) = ?mxE"
    by (simp_all add: startNewSession_def Let_def)
  show ?thesis
    unfolding tracks_def ss' c u m
    using pos e l d b by simp
qed

lemma recordTask_current:
  assumes "getCurrentSession tr = Some session"
  shows "recordTask tr now task tierUsed succ ctx =
           Some (tr\<lparr>data := (data tr)\<lparr>sessions :=
                   update_first (\<lambda>s. session_id s = session_id session)
                     (push_entry (maxEntriesPerSession tr) (entry_of now task tierUsed succ ctx))
                     (sessions (data tr))\<rparr>\<rparr>)"
  by (subst recordTask.simps) (simp add: assms entry_of_def Let_def)

lemma tracks_recordTask:
  assumes "tracks tr h"
  shows "\<exists>tr'. recordTask tr now task tierUsed succ ctx = Some tr'
            \<and> tracks tr' (butlast h @ [last h @ [entry_of now task tierUsed succ ctx]])
            \<and> maxSessions tr' = maxSessions tr
            \<and> maxEntriesPerSession tr' = maxEntriesPerSession tr"
proof -
  let ?e = "entry_of now task tierUsed succ ctx"
  let ?ss = "sessions (data tr)"
  let ?mxS = "maxSessions tr"
  let ?mxE = "maxEntriesPerSession tr"
  let ?s' = "push_entry ?mxE ?e (last ?ss)"
  define tr' where "tr' = tr\<lparr>data := (data tr)\<lparr>sessions := butlast ?ss @ [?s']\<rparr>\<rparr>"
  have ne: "?ss \<noteq> []" using assms by (rule tracks_nonempty)
  have pos: "0 < ?mxS" and hne: "h \<noteq> []" and dist: "distinct (map session_id ?ss)"
    using assms by (simp_all add: tracks_def)
  have cur: "getCurrentSession tr = Some (last ?ss)" using assms by (rule tracks_current)
  have r: "recordTask tr now task tierUsed succ ctx = Some tr'"
    unfolding recordTask_current [OF cur] tr'_def
    using update_first_last_distinct [OF dist ne] by simp
  have ids: "map session_id (butlast ?ss @ [?s']) = map session_id ?ss"
  proof -
    have "map session_id (butlast ?ss @ [?s']) = map session_id (butlast ?ss @ [last ?ss])"
      by (simp add: push_entry_def)
    then show ?thesis using ne by simp
  qed
  have ent: "map entries (butlast ?ss @ [?s'])
               = map (takeLast ?mxE) (takeLast ?mxS (butlast h @ [last h @ [?e]]))"
  proof -
    have "map entries (butlast ?ss @ [?s'])
            = butlast (map entries ?ss) @ [takeLast ?mxE (entries (last ?ss) @ [?e])]"
      by (simp add: push_entry_def prune_oldest_takeLast map_butlast)
    also have "\<dots> = butlast (map (takeLast ?mxE) (takeLast ?mxS h))
                      @ [takeLast ?mxE (takeLast ?mxE (last h) @ [?e])]"
      using assms tracks_current_entries [OF assms] by (simp add: tracks_def)
    also have "\<dots> = butlast (map (takeLast ?mxE) (takeLast ?mxS h))
                      @ [takeLast ?mxE (last h @ [?e])]"
      by (simp add: takeLast_takeLast_append)
    also have "\<dots> = map (takeLast ?mxE) (butlast (takeLast ?mxS h) @ [last h @ [?e]])"
      by (simp add: map_butlast)
    also have "\<dots> = map (takeLast ?mxE) (takeLast ?mxS (butlast h @ [last h @ [?e]]))"
      using pos hne by (simp add: takeLast_butlast_snoc)
    finally show ?thesis .
  qed
  have lst: "session_id (last (butlast ?ss @ [?s'])) = session_id (last ?ss)"
    by (simp add: push_entry_def)
  have bnd: "list_all (\<lambda>s. session_id s < uuid_counter tr) (butlast ?ss @ [?s'])"
  proof -
    have "list_all (\<lambda>i. i < uuid_counter tr) (map session_id ?ss)"
      using assms by (simp add: tracks_def list_all_iff)
    then have "list_all (\<lambda>i. i < uuid_counter tr) (map session_id (butlast ?ss @ [?s']))"
      by (simp only: ids)
    then show ?thesis by (simp add: list_all_iff)
  qed
  have "tracks tr' (butlast h @ [last h @ [?e]])"
    unfolding tracks_def tr'_def
    using assms pos ent lst bnd dist ids
    by (simp add: tracks_def del: map_append)
  with r show ?thesis by (auto simp: tr'_def)
qed

lemma recordTask_with_entry:
  assumes "tracks tr h"
  shows "recordTask tr now task tierUsed succ ctx
           = Some (with_entry tr (entry_of now task tierUsed succ ctx))"
proof -
  let ?ss = "sessions (data tr)"
  have ne: "?ss \<noteq> []" using assms by (rule tracks_nonempty)
  have dist: "distinct (map session_id ?ss)" using assms by (simp add: tracks_def)
  have cur: "getCurrentSession tr = Some (last ?ss)" using assms by (rule tracks_current)
  show ?thesis
    unfolding recordTask_current [OF cur] with_entry_def
    using update_first_last_distinct [OF dist ne]
    by (simp add: push_entry_def prune_oldest_takeLast entry_of_def)
qed

lemma tracks_with_entry:
  assumes "tracks tr h"
  shows "tracks (with_entry tr (entry_of now task tierUsed succ ctx))
           (butlast h @ [last h @ [entry_of now task tierUsed succ ctx]])"
  using tracks_recordTask [OF assms, of now task tierUsed succ ctx]
  by (simp add: recordTask_with_entry [OF assms])

lemma with_entry_last:
  assumes "0 < maxEntriesPerSession tr"
  shows "last (entries (last (sessions (data (with_entry tr e))))) = e"
  using assms by (simp add: with_entry_def last_takeLast)

lemma memory_op_tracks:
  assumes "tracks tr h"
  shows "\<exists>tr'. memory_op tr x = Some tr' \<and> tracks tr' (history_op h x)
            \<and> maxSessions tr' = maxSessions tr
            \<and> maxEntriesPerSession tr' = maxEntriesPerSession tr"
proof (cases x)
  case (RecordTask now task tierUsed succ ctx)
  then show ?thesis
    using tracks_recordTask [OF assms, of now task tierUsed succ ctx] by simp
next
  case (StartNewSession now)
  then show ?thesis
    using tracks_startNewSession [OF assms, of now] by (simp add: startNewSession_def Let_def)
qed

lemma memory_ops_tracks:
  assumes "tracks tr h"
  shows "\<exists>tr'. memory_ops tr ops = Some tr' \<and> tracks tr' (foldl history_op h ops)
            \<and> maxSessions tr' = maxSessions tr
            \<and> maxEntriesPerSession tr' = maxEntriesPerSession tr"
  using assms
proof (induction ops arbitrary: tr h)
  case Nil
  then show ?case by simp
next
  case (Cons x xs)
  from memory_op_tracks [OF Cons.prems, of x]
  obtain tr1 where 1: "memory_op tr x = Some tr1" "tracks tr1 (history_op h x)"
    "maxSessions tr1 = maxSessions tr" "maxEntriesPerSession tr1 = maxEntriesPerSession tr"
    by blast
  from Cons.IH [OF 1(2)] 1 show ?case by simp
qed

lemma new_tracker_bounds:
  "maxSessions (new_tracker mxE mxS now) = mxS"
  "maxEntriesPerSession (new_tracker mxE mxS now) = mxE"
  by (simp_all add: new_tracker_def startNewSession_def Let_def)

text \<open>
  C7. Let the session capacity be positive (the server builds the memory with 100
  entries and 10 sessions). From a new memory, after every sequence of
  \<open>recordTask\<close> and \<open>startNewSession\<close> calls, every call returns and the retained
  sessions are exactly the most recent capacity-many sessions started, each holding
  exactly its most recent capacity-many entries in recording order (the oldest are
  discarded first); so there are never more sessions, nor more entries in a session,
  than the bounds, and the current session is the last one started.
\<close>

theorem session_eviction:
  assumes "0 < mxS"
  shows "\<exists>tr. memory_ops (new_tracker mxE mxS now) ops = Some tr
           \<and> map entries (sessions (data tr))
               = map (takeLast mxE) (takeLast mxS (history ops))
           \<and> length (sessions (data tr)) \<le> mxS
           \<and> list_all (\<lambda>s. length (entries s) \<le> mxE) (sessions (data tr))
           \<and> getCurrentSession tr = Some (last (sessions (data tr)))
           \<and> entries (last (sessions (data tr))) = takeLast mxE (last (history ops))"
proof -
  from memory_ops_tracks [OF tracks_new_tracker [OF assms], of mxE now ops]
  obtain tr where r: "memory_ops (new_tracker mxE mxS now) ops = Some tr"
    and t: "tracks tr (history ops)"
    and b: "maxSessions tr = mxS" "maxEntriesPerSession tr = mxE"
    by (auto simp: history_def new_tracker_bounds)
  have e: "map entries (sessions (data tr)) = map (takeLast mxE) (takeLast mxS (history ops))"
    using t b by (simp add: tracks_def)
  have "length (map entries (sessions (data tr))) \<le> mxS"
    unfolding e by (simp add: length_takeLast)
  then have l: "length (sessions (data tr)) \<le> mxS" by simp
  have "list_all (\<lambda>es. length es \<le> mxE) (map entries (sessions (data tr)))"
    unfolding e by (simp add: list_all_iff length_takeLast)
  then have a: "list_all (\<lambda>s. length (entries s) \<le> mxE) (sessions (data tr))"
    by (simp add: list_all_iff)
  have c: "getCurrentSession tr = Some (last (sessions (data tr)))"
    using t by (rule tracks_current)
  have d: "entries (last (sessions (data tr))) = takeLast mxE (last (history ops))"
    using tracks_current_entries [OF t] b by simp
  from r e l a c d show ?thesis by blast
qed

text \<open>Witness of C7: five operations with two entries per session, retaining two
  sessions and retaining one.\<close>

theorem session_eviction_witness:
  "memory_ops (new_tracker 2 2 ''t0'') some_ops \<noteq> None
   \<and> map (map me_timestamp \<circ> entries)
        (sessions (data (the (memory_ops (new_tracker 2 2 ''t0'') some_ops))))
       = [[''t2'', ''t3''], [''t5'']]
   \<and> map (map me_timestamp \<circ> entries)
        (sessions (data (the (memory_ops (new_tracker 2 1 ''t0'') some_ops))))
       = [[''t5'']]"
proof -
  have h2: "map (map me_timestamp) (map (takeLast 2) (takeLast 2 (history some_ops)))
              = [[''t2'', ''t3''], [''t5'']]"
    by code_simp
  have h1: "map (map me_timestamp) (map (takeLast 2) (takeLast 1 (history some_ops)))
              = [[''t5'']]"
    by code_simp
  from session_eviction [of 2 2 "''t0''" some_ops]
  obtain tr2 where 2: "memory_ops (new_tracker 2 2 ''t0'') some_ops = Some tr2"
    "map entries (sessions (data tr2)) = map (takeLast 2) (takeLast 2 (history some_ops))"
    by auto
  from session_eviction [of 1 2 "''t0''" some_ops]
  obtain tr1 where 1: "memory_ops (new_tracker 2 1 ''t0'') some_ops = Some tr1"
    "map entries (sessions (data tr1)) = map (takeLast 2) (takeLast 1 (history some_ops))"
    by auto
  have "map (map me_timestamp \<circ> entries) (sessions (data tr2))
          = map (map me_timestamp) (map entries (sessions (data tr2)))" by simp
  with 2 h2 have a: "map (map me_timestamp \<circ> entries) (sessions (data tr2))
          = [[''t2'', ''t3''], [''t5'']]" by (simp only:)
  have "map (map me_timestamp \<circ> entries) (sessions (data tr1))
          = map (map me_timestamp) (map entries (sessions (data tr1)))" by simp
  with 1 h1 have b: "map (map me_timestamp \<circ> entries) (sessions (data tr1)) = [[''t5'']]"
    by (simp only:)
  from 2(1) 1(1) a b show ?thesis by simp
qed

subsection \<open>The recommendation\<close>

lemma hd_sort_key_least:
  assumes "xs \<noteq> []" and "p \<in> set xs"
  shows "f (hd (sort_key f xs)) \<le> f p"
proof -
  have "sorted (map f (sort_key f xs))" by simp
  moreover have "p \<in> set (sort_key f xs)" using assms by simp
  ultimately show ?thesis by (cases "sort_key f xs") auto
qed

lemma hd_sort_key_first:
  assumes "xs \<noteq> []"
  shows "\<exists>rest. filter (\<lambda>y. f y = f (hd (sort_key f xs))) xs = hd (sort_key f xs) # rest"
proof -
  from assms have "length (sort_key f xs) \<noteq> 0" by simp
  then obtain e s where s: "sort_key f xs = e # s" by (cases "sort_key f xs") auto
  have "filter (\<lambda>y. f y = f e) xs = filter (\<lambda>y. f y = f e) (sort_key f xs)"
    by (simp add: sort_key_stable)
  also have "\<dots> = e # filter (\<lambda>y. f y = f e) s" by (simp add: s)
  finally show ?thesis by (simp add: s)
qed

lemma filter_Cons_before:
  assumes "filter P xs = e # rest" and "p \<in> set rest"
  shows "\<exists>as bs cs. xs = as @ e # bs @ p # cs"
proof -
  from assms(1) obtain us vs where xs: "xs = us @ e # vs" and rest: "rest = filter P vs"
    by (auto simp: filter_eq_Cons_iff)
  from assms(2) rest have "p \<in> set vs" by simp
  then obtain bs cs where "vs = bs @ p # cs" by (auto dest: split_list)
  with xs show ?thesis by blast
qed

lemma first_index_append_mem:
  "a \<in> set ts \<Longrightarrow> first_index a (ts @ us) = first_index a ts"
  by (induction ts) (auto simp: first_index_def)

lemma first_index_less: "a \<in> set ts \<Longrightarrow> first_index a ts < length ts"
  by (induction ts) (auto simp: first_index_def)

lemma first_index_new: "x \<notin> set ts \<Longrightarrow> first_index x (ts @ [x]) = length ts"
  by (induction ts) (auto simp: first_index_def)

lemma count_list_snoc: "count_list (ts @ [x]) u = count_list ts u + (if u = x then 1 else 0)"
  by (induction ts) auto

lemma count_list_pos_iff: "0 < count_list ts u \<longleftrightarrow> u \<in> set ts"
  by (induction ts) auto

text \<open>What the counting loop builds from tiers that name no inherited member.\<close>

lemma update_absent: "map_of al k = None \<Longrightarrow> AList.update k v al = al @ [(k, v)]"
  by (induction al) auto

lemma tier_counts:
  assumes "\<forall>t \<in> set ts. t \<notin> set inherited_members"
  shows "map_of (foldl count_tier [] ts) u
           = (if u \<in> set ts then Some (Number (count_list ts u)) else None)
   \<and> distinct (map fst (foldl count_tier [] ts))
   \<and> set (map fst (foldl count_tier [] ts)) = set ts
   \<and> sorted_wrt (\<lambda>a b. first_index a ts < first_index b ts) (map fst (foldl count_tier [] ts))"
  using assms
proof (induction ts arbitrary: u rule: rev_induct)
  case Nil
  show ?case by simp
next
  case (snoc x ts)
  let ?tc = "foldl count_tier [] ts"
  have pl: "\<forall>t \<in> set ts. t \<notin> set inherited_members" and px: "x \<notin> set inherited_members"
    using snoc.prems by simp_all
  have m: "map_of ?tc v = (if v \<in> set ts then Some (Number (count_list ts v)) else None)" for v
    using snoc.IH [OF pl] by blast
  have d: "distinct (map fst ?tc)" and k: "set (map fst ?tc) = set ts"
    and o: "sorted_wrt (\<lambda>a b. first_index a ts < first_index b ts) (map fst ?tc)"
    using snoc.IH [OF pl] by blast+
  have step: "foldl count_tier [] (ts @ [x]) = AList.update x (Number (count_list ts x + 1)) ?tc"
  proof (cases "x \<in> set ts")
    case True
    then show ?thesis by (simp add: count_tier_def m)
  next
    case False
    then have n: "map_of ?tc x = None" by (simp add: m)
    have p: "x \<noteq> ''__proto__''" using px by (auto simp: inherited_members_def)
    have "count_list ts x = 0" using False by (simp add: count_list_0_iff)
    then show ?thesis using n p px by (simp add: count_tier_def update_absent)
  qed
  have m': "map_of (foldl count_tier [] (ts @ [x])) u =
      (if u \<in> set (ts @ [x]) then Some (Number (count_list (ts @ [x]) u)) else None)"
    unfolding step by (simp add: update_conv' m count_list_snoc)
  have d': "distinct (map fst (foldl count_tier [] (ts @ [x])))"
    unfolding step using d by (simp add: distinct_update)
  have keys: "map fst (foldl count_tier [] (ts @ [x])) =
      (if x \<in> set ts then map fst ?tc else map fst ?tc @ [x])"
    unfolding step using k by (simp add: update_keys)
  have k': "set (map fst (foldl count_tier [] (ts @ [x]))) = set (ts @ [x])"
    unfolding keys using k by auto
  have o1: "sorted_wrt (\<lambda>a b. first_index a (ts @ [x]) < first_index b (ts @ [x])) (map fst ?tc)"
  proof (rule sorted_wrt_mono_rel [OF _ o])
    fix a b assume "a \<in> set (map fst ?tc)" "b \<in> set (map fst ?tc)"
      and "first_index a ts < first_index b ts"
    then show "first_index a (ts @ [x]) < first_index b (ts @ [x])"
      using k by (simp add: first_index_append_mem)
  qed
  have o': "sorted_wrt (\<lambda>a b. first_index a (ts @ [x]) < first_index b (ts @ [x]))
              (map fst (foldl count_tier [] (ts @ [x])))"
  proof (cases "x \<in> set ts")
    case True
    then show ?thesis unfolding keys using o1 by simp
  next
    case False
    have "first_index a (ts @ [x]) < first_index x (ts @ [x])" if "a \<in> set (map fst ?tc)" for a
      using that k False by (simp add: first_index_append_mem first_index_new first_index_less)
    then show ?thesis unfolding keys using False o1 by (simp add: sorted_wrt_append)
  qed
  from m' d' k' o' show ?case by blast
qed

text \<open>Without array indices among the keys, \<open>Object.entries\<close> enumerates in creation
  order; and on counts that are all numbers the sort by the comparator is the stable
  sort by decreasing count.\<close>

lemma Object_entries_ordinary:
  "\<forall>p \<in> set al. \<not> is_array_index (fst p) \<Longrightarrow> Object_entries al = al"
  by (simp add: Object_entries_def filter_empty_conv [THEN iffD2])

lemma insort_cmp_key:
  assumes "snd x \<noteq> NotANumber" and "\<forall>p \<in> set ys. snd p \<noteq> NotANumber"
  shows "insort_cmp compare_counts x ys = insort_key count_key x ys"
  using assms
proof (induction ys)
  case Nil
  show ?case by simp
next
  case (Cons y ys)
  from Cons.prems obtain a b where "snd x = Number a" "snd y = Number b"
    by (cases "snd x"; cases "snd y") auto
  then have "compare_counts x y \<le> 0 \<longleftrightarrow> count_key x \<le> count_key y"
    by (simp add: compare_counts_def count_key_def)
  with Cons show ?case by simp
qed

lemma sort_cmp_key:
  "\<forall>p \<in> set xs. snd p \<noteq> NotANumber \<Longrightarrow> sort_cmp compare_counts xs = sort_key count_key xs"
proof (induction xs)
  case Nil
  show ?case by (simp add: sort_cmp_def)
next
  case (Cons x xs)
  then have ih: "sort_cmp compare_counts xs = sort_key count_key xs" by simp
  have "sort_cmp compare_counts (x # xs) = insort_cmp compare_counts x (sort_key count_key xs)"
    using ih by (simp add: sort_cmp_def)
  also have "\<dots> = insort_key count_key x (sort_key count_key xs)"
    using Cons.prems by (intro insort_cmp_key) simp_all
  finally show ?case by simp
qed

lemma relevant_tiers_Nil:
  "relevant_tiers tr task = [] \<Longrightarrow> getRecommendedTier tr task = None"
  by (simp add: getRecommendedTier_def relevant_tiers_def Let_def split: option.splits)

lemma getRecommendedTier_relevant:
  assumes "\<forall>t \<in> set (relevant_tiers tr task). ordinary_key t"
  shows "getRecommendedTier tr task =
     (let ts = relevant_tiers tr task
      in if ts = [] then None
         else (case sort_key count_key (foldl count_tier [] ts) of
                 [] \<Rightarrow> None
               | e # _ \<Rightarrow> Some (fst e)))"
proof -
  let ?ts = "relevant_tiers tr task"
  let ?tc = "foldl count_tier [] ?ts"
  have inh: "\<forall>t \<in> set ?ts. t \<notin> set inherited_members"
    using assms by (simp add: ordinary_key_def)
  note tc = tier_counts [OF inh]
  have keys: "set (map fst ?tc) = set ?ts" using tc by blast
  have dist: "distinct (map fst ?tc)" using tc by blast
  have idx: "\<forall>p \<in> set ?tc. \<not> is_array_index (fst p)"
    using keys assms by (auto simp: ordinary_key_def)
  have num: "\<forall>p \<in> set ?tc. snd p \<noteq> NotANumber"
  proof
    fix p assume "p \<in> set ?tc"
    with dist have "map_of ?tc (fst p) = Some (snd p)" by simp
    moreover have "map_of ?tc (fst p) =
        (if fst p \<in> set ?ts then Some (Number (count_list ?ts (fst p))) else None)"
      using tier_counts [OF inh, of "fst p"] by blast
    ultimately show "snd p \<noteq> NotANumber" by (auto split: if_splits)
  qed
  have "sort_cmp compare_counts (Object_entries ?tc) = sort_key count_key ?tc"
    by (simp add: Object_entries_ordinary [OF idx] sort_cmp_key [OF num])
  then show ?thesis
    by (simp add: getRecommendedTier_def relevant_tiers_def Let_def split: option.splits)
qed

lemma sort_key_Nil_iff: "sort_key f xs = [] \<longleftrightarrow> xs = []"
  by (metis length_0_conv length_sort)

lemma most_used_first:
  assumes ne: "ts \<noteq> []" and inh: "\<forall>t \<in> set ts. t \<notin> set inherited_members"
  defines "e \<equiv> hd (sort_key count_key (foldl count_tier [] ts))"
  shows "fst e \<in> set ts"
    and "count_list ts u \<le> count_list ts (fst e)"
    and "count_list ts u = count_list ts (fst e) \<Longrightarrow> u \<noteq> fst e
           \<Longrightarrow> first_index (fst e) ts < first_index u ts"
proof -
  let ?tc = "foldl count_tier [] ts"
  note tc = tier_counts [OF inh]
  have keys: "set (map fst ?tc) = set ts" using tc by blast
  have dist: "distinct (map fst ?tc)" using tc by blast
  have look: "map_of ?tc t = (if t \<in> set ts then Some (Number (count_list ts t)) else None)" for t
    using tier_counts [OF inh, of t] by blast
  have tcne: "?tc \<noteq> []" using keys ne by auto
  have val: "c = Number (count_list ts t) \<and> t \<in> set ts" if "(t, c) \<in> set ?tc" for t c
  proof -
    from that dist have "map_of ?tc t = Some c" by simp
    with look [of t] show ?thesis by (auto split: if_splits)
  qed
  have mem: "(t, Number (count_list ts t)) \<in> set ?tc" if "t \<in> set ts" for t
  proof -
    from that look [of t] have "map_of ?tc t = Some (Number (count_list ts t))" by simp
    then show ?thesis by (rule map_of_SomeD)
  qed
  have ein: "e \<in> set ?tc"
    unfolding e_def using tcne by (metis hd_in_set set_sort sort_key_Nil_iff)
  then have e: "e = (fst e, Number (count_list ts (fst e)))" and ets: "fst e \<in> set ts"
    using val [of "fst e" "snd e"] by (auto simp: prod_eq_iff)
  have ke: "count_key e = - int (count_list ts (fst e))"
    by (subst e) (simp add: count_key_def)
  show "fst e \<in> set ts" by (rule ets)
  have least: "count_key e \<le> count_key p" if "p \<in> set ?tc" for p
    unfolding e_def using tcne that by (rule hd_sort_key_least)
  show le: "count_list ts u \<le> count_list ts (fst e)"
  proof (cases "u \<in> set ts")
    case True
    from least [OF mem [OF True]] ke show ?thesis by (simp add: count_key_def)
  next
    case False
    then show ?thesis by (simp add: count_list_0_iff)
  qed
  show "first_index (fst e) ts < first_index u ts"
    if eq: "count_list ts u = count_list ts (fst e)" and neq: "u \<noteq> fst e"
  proof -
    have "0 < count_list ts (fst e)" using ets by (simp add: count_list_pos_iff)
    with eq have "0 < count_list ts u" by simp
    then have uts: "u \<in> set ts" by (simp only: count_list_pos_iff)
    let ?p = "(u, Number (count_list ts u))"
    have pin: "?p \<in> set ?tc" using uts by (rule mem)
    have same: "count_key ?p = count_key e" using eq ke by (simp add: count_key_def)
    from hd_sort_key_first [OF tcne, of count_key]
    obtain rest where fl: "filter (\<lambda>y. count_key y = count_key e) ?tc = e # rest"
      unfolding e_def by blast
    have "?p \<in> set (filter (\<lambda>y. count_key y = count_key e) ?tc)" using pin same by simp
    with fl neq have "?p \<in> set rest" by (metis fst_conv set_ConsD)
    from filter_Cons_before [OF fl this]
    obtain as bs cs where "?tc = as @ e # bs @ ?p # cs" by blast
    then have "map fst ?tc = map fst as @ fst e # map fst bs @ u # map fst cs" by simp
    moreover have "sorted_wrt (\<lambda>a b. first_index a ts < first_index b ts) (map fst ?tc)"
      using tc by blast
    ultimately show ?thesis by (simp add: sorted_wrt_append)
  qed
qed

text \<open>
  C8, as the code has it. Let the tiers of the successful entries of the current
  session whose category is the task's be ordinary keys of an object: none is an
  array index (the decimal text of an integer from 0 to \<open>2^32 - 2\<close>) and none is the
  name of a member every object inherits (\<open>constructor\<close>, \<open>toString\<close>, ...); the
  five tier names are such keys. Then \<open>getRecommendedTier\<close> returns none exactly
  when there is no such entry. Otherwise it returns a tier of those entries (of the
  current session only) whose number of occurrences among them is the highest, and
  of the tiers with that number the one first encountered in entry order.
\<close>

theorem recommend_most_used:
  assumes "\<forall>t \<in> set (relevant_tiers tr task). ordinary_key t"
  shows "(getRecommendedTier tr task = None \<longleftrightarrow> relevant_tiers tr task = [])
   \<and> (\<forall>t. getRecommendedTier tr task = Some t \<longrightarrow>
          t \<in> set (relevant_tiers tr task)
          \<and> (\<forall>u. count_list (relevant_tiers tr task) u \<le> count_list (relevant_tiers tr task) t)
          \<and> (\<forall>u. count_list (relevant_tiers tr task) u = count_list (relevant_tiers tr task) t
                 \<and> u \<noteq> t
               \<longrightarrow> first_index t (relevant_tiers tr task) < first_index u (relevant_tiers tr task)))"
proof (cases "relevant_tiers tr task = []")
  case True
  then show ?thesis by (simp add: relevant_tiers_Nil)
next
  case False
  let ?ts = "relevant_tiers tr task"
  let ?s = "sort_key count_key (foldl count_tier [] ?ts)"
  have inh: "\<forall>t \<in> set ?ts. t \<notin> set inherited_members"
    using assms by (simp add: ordinary_key_def)
  have "set (map fst (foldl count_tier [] ?ts)) = set ?ts" using tier_counts [OF inh] by blast
  with False have "foldl count_tier [] ?ts \<noteq> []" by auto
  then have "?s \<noteq> []" by (simp add: sort_key_Nil_iff)
  then have r: "getRecommendedTier tr task = Some (fst (hd ?s))"
    using False by (cases ?s) (auto simp: getRecommendedTier_relevant [OF assms] Let_def)
  show ?thesis
    unfolding r using False most_used_first [OF False inh] by auto
qed

text \<open>Witness of C8: in the current session \<open>primary\<close> and \<open>critical\<close> both served
  two successful bug fixes and \<open>primary\<close> came first; the three of the older session
  do not count.\<close>

theorem recommend_most_used_witness:
  "getRecommendedTier tie_memory ''Fix the broken link'' = Some ''primary''
   \<and> relevant_tiers tie_memory ''Fix the broken link''
       = [''primary'', ''critical'', ''critical'', ''primary'']
   \<and> first_index ''primary'' (relevant_tiers tie_memory ''Fix the broken link'')
       < first_index ''critical'' (relevant_tiers tie_memory ''Fix the broken link'')"
proof -
  let ?ts = "relevant_tiers tie_memory ''Fix the broken link''"
  have r: "getRecommendedTier tie_memory ''Fix the broken link'' = Some ''primary''"
    by code_simp
  have ts: "?ts = [''primary'', ''critical'', ''critical'', ''primary'']"
    by code_simp
  have o: "\<forall>t \<in> set ?ts. ordinary_key t"
    unfolding ts by code_simp
  have c: "count_list ?ts ''critical'' = count_list ?ts ''primary''"
    unfolding ts by simp
  from recommend_most_used [OF o] r
  have "\<forall>u. count_list ?ts u = count_list ?ts ''primary'' \<and> u \<noteq> ''primary''
           \<longrightarrow> first_index ''primary'' ?ts < first_index u ?ts"
    by blast
  then have "count_list ?ts ''critical'' = count_list ?ts ''primary'' \<and> ''critical'' \<noteq> ''primary''
           \<longrightarrow> first_index ''primary'' ?ts < first_index ''critical'' ?ts"
    by (rule spec)
  with c have "first_index ''primary'' ?ts < first_index ''critical'' ?ts"
    by simp
  with r ts show ?thesis by simp
qed

text \<open>
  Counterexamples to C8 as stated. Successful bug fixes on the tiers \<open>2\<close> and \<open>1\<close>,
  once each and in that order: the recommendation is \<open>1\<close>, the tier encountered
  last, because the object of counts enumerates array indices in numeric order.
  One on \<open>constructor\<close>, then two on \<open>primary\<close>: the recommendation is
  \<open>constructor\<close>, whose count is the lower, because the count started from the
  inherited function is not a number. One on \<open>__proto__\<close> only: no recommendation,
  although there is a successful entry of the category.
\<close>

theorem recommend_most_used_counterexample:
  "relevant_tiers (fixes_memory [''2'', ''1'']) ''fix the parser'' = [''2'', ''1'']
   \<and> getRecommendedTier (fixes_memory [''2'', ''1'']) ''fix the parser'' = Some ''1''
   \<and> count_list [''2'', ''1''] ''2'' = count_list [''2'', ''1''] ''1''
   \<and> first_index ''2'' [''2'', ''1''] < first_index ''1'' [''2'', ''1'']
   \<and> relevant_tiers (fixes_memory [''constructor'', ''primary'', ''primary'']) ''fix the parser''
       = [''constructor'', ''primary'', ''primary'']
   \<and> getRecommendedTier (fixes_memory [''constructor'', ''primary'', ''primary''])
         ''fix the parser'' = Some ''constructor''
   \<and> count_list [''constructor'', ''primary'', ''primary''] ''constructor''
       < count_list [''constructor'', ''primary'', ''primary''] ''primary''
   \<and> relevant_tiers (fixes_memory [''__proto__'']) ''fix the parser'' = [''__proto__'']
   \<and> getRecommendedTier (fixes_memory [''__proto__'']) ''fix the parser'' = None"
  by code_simp

section \<open>The dispatcher\<close>

subsection \<open>switch\_tier\<close>

lemma switchTier_tracks:
  assumes "tracks (memoryTracker ctx) h"
  shows "\<exists>mt. switchTier ctx clock t r =
                 Some (ctx\<lparr>state := (state ctx)\<lparr>currentTier := t\<rparr>, memoryTracker := mt\<rparr>)
            \<and> tracks mt (butlast h @ [last h @
                 [entry_of (now_iso clock) (''tier_switch:'' @ currentTier (state ctx) @ ''->'' @ t)
                    t True (Some r)]])"
proof -
  from tracks_recordTask [OF assms, of "now_iso clock"
      "''tier_switch:'' @ currentTier (state ctx) @ ''->'' @ t" t True "Some r"]
  obtain mt where "recordTierSwitch (memoryTracker ctx) (now_iso clock) (currentTier (state ctx)) t r
      = Some mt"
    and "tracks mt (butlast h @ [last h @
           [entry_of (now_iso clock) (''tier_switch:'' @ currentTier (state ctx) @ ''->'' @ t)
              t True (Some r)]])"
    by (auto simp: recordTierSwitch_def)
  then show ?thesis by (auto simp: switchTier_def Let_def)
qed

lemma switchTier_with_entry:
  assumes "tracks (memoryTracker ctx) h"
  shows "switchTier ctx clock t r =
           Some (ctx\<lparr>state := (state ctx)\<lparr>currentTier := t\<rparr>,
                     memoryTracker := with_entry (memoryTracker ctx)
                        (entry_of (now_iso clock)
                           (''tier_switch:'' @ currentTier (state ctx) @ ''->'' @ t) t True (Some r))\<rparr>)"
  by (simp add: switchTier_def Let_def recordTierSwitch_def recordTask_with_entry [OF assms])

lemma tracks_default_server: "tracks (memoryTracker default_server) [[]]"
  by (simp add: default_server_def createServer_def tracks_new_tracker)

text \<open>
  C9. A switch-tier request whose tier is not legal for the active strategy (that of
  the rule engine, which \<open>setStrategy\<close> keeps equal to the state's) is answered with
  the invalid-tier response and leaves the whole context, the dispatcher state and
  the memory included, unchanged. For a legal tier, on a memory in a state its own
  operations produce (it tracks a history \<open>h\<close>), the request sets \<open>currentTier\<close> to
  the tier and changes nothing else of the state; the memory it leaves is the one
  before with exactly one entry recorded in the current session, the last one: the
  entry \<open>e\<close> for the tier switched to, marked successful, with the time of the
  request, the category of the switch and the reason given. No other session, no
  capacity and no identifier changes; the new memory tracks the history extended by
  \<open>e\<close>, its current session is the last one, and with a positive entry capacity (the
  server builds the memory with 100) \<open>e\<close> is the last entry of that session.
\<close>

theorem switch_tier_request:
  fixes args ctx clock h
  defines "e \<equiv> \<lparr>me_timestamp = now_iso clock,
                   task_pattern = extractPattern
                      (''tier_switch:'' @ currentTier (state ctx) @ ''->'' @ arg_tier args),
                   tier_used = arg_tier args, success = True,
                   me_context = Some (map_option UserReason (arg_reason args))\<rparr>"
  shows "(\<not> isValidTier (strategy (ruleEngine ctx)) (arg_tier args) \<longrightarrow>
      handleSwitchTier args ctx clock =
        Some (SwitchInvalidTier (arg_tier args) (state_strategy (state ctx))
                (getAvailableTiers (strategy (ruleEngine ctx))), ctx))
   \<and> (isValidTier (strategy (ruleEngine ctx)) (arg_tier args) \<and> tracks (memoryTracker ctx) h \<longrightarrow>
        handleSwitchTier args ctx clock =
          Some (SwitchedFromTo (currentTier (state ctx)) (arg_tier args) (arg_reason args),
                ctx\<lparr>state := (state ctx)\<lparr>currentTier := arg_tier args\<rparr>,
                    memoryTracker := with_entry (memoryTracker ctx) e\<rparr>)
        \<and> tracks (with_entry (memoryTracker ctx) e) (butlast h @ [last h @ [e]])
        \<and> getCurrentSession (with_entry (memoryTracker ctx) e)
            = Some (last (sessions (data (with_entry (memoryTracker ctx) e))))
        \<and> butlast (sessions (data (with_entry (memoryTracker ctx) e)))
            = butlast (sessions (data (memoryTracker ctx)))
        \<and> entries (last (sessions (data (with_entry (memoryTracker ctx) e))))
            = takeLast (maxEntriesPerSession (memoryTracker ctx))
                (entries (last (sessions (data (memoryTracker ctx)))) @ [e])
        \<and> maxEntriesPerSession (with_entry (memoryTracker ctx) e)
            = maxEntriesPerSession (memoryTracker ctx)
        \<and> maxSessions (with_entry (memoryTracker ctx) e) = maxSessions (memoryTracker ctx)
        \<and> (0 < maxEntriesPerSession (memoryTracker ctx) \<longrightarrow>
             last (entries (last (sessions (data (with_entry (memoryTracker ctx) e))))) = e))"
proof -
  let ?mt = "memoryTracker ctx"
  have e: "e = entry_of (now_iso clock)
                 (''tier_switch:'' @ currentTier (state ctx) @ ''->'' @ arg_tier args)
                 (arg_tier args) True (Some (map_option UserReason (arg_reason args)))"
    by (simp add: e_def entry_of_def)
  have a: "handleSwitchTier args ctx clock =
        Some (SwitchInvalidTier (arg_tier args) (state_strategy (state ctx))
                (getAvailableTiers (strategy (ruleEngine ctx))), ctx)"
    if "\<not> isValidTier (strategy (ruleEngine ctx)) (arg_tier args)"
    using that by (simp add: handleSwitchTier_def)
  have b: "handleSwitchTier args ctx clock =
          Some (SwitchedFromTo (currentTier (state ctx)) (arg_tier args) (arg_reason args),
                ctx\<lparr>state := (state ctx)\<lparr>currentTier := arg_tier args\<rparr>,
                    memoryTracker := with_entry ?mt e\<rparr>)"
    if v: "isValidTier (strategy (ruleEngine ctx)) (arg_tier args)" and t: "tracks ?mt h"
    using v unfolding e
    by (simp add: handleSwitchTier_def Let_def switchTier_with_entry [OF t])
  have c: "tracks (with_entry ?mt e) (butlast h @ [last h @ [e]])" if t: "tracks ?mt h"
    unfolding e using t by (rule tracks_with_entry)
  have d: "getCurrentSession (with_entry ?mt e) = Some (last (sessions (data (with_entry ?mt e))))"
    if t: "tracks ?mt h"
    using c [OF t] by (rule tracks_current)
  have ne: "sessions (data ?mt) \<noteq> []" if t: "tracks ?mt h"
    using t by (rule tracks_nonempty)
  have f: "butlast (sessions (data (with_entry ?mt e))) = butlast (sessions (data ?mt))"
    by (simp add: with_entry_def)
  have g: "entries (last (sessions (data (with_entry ?mt e))))
            = takeLast (maxEntriesPerSession ?mt) (entries (last (sessions (data ?mt))) @ [e])"
    by (simp add: with_entry_def)
  have i: "maxEntriesPerSession (with_entry ?mt e) = maxEntriesPerSession ?mt"
    "maxSessions (with_entry ?mt e) = maxSessions ?mt"
    by (simp_all add: with_entry_def)
  have j: "last (entries (last (sessions (data (with_entry ?mt e))))) = e"
    if "0 < maxEntriesPerSession ?mt"
    using that by (rule with_entry_last)
  from a b c d f g i j show ?thesis by blast
qed

text \<open>Witness of C9: on the default 2-tier server, \<open>tier2\<close> is refused and \<open>critical\<close>
  is switched to, with the entry of the switch the only one of the session.\<close>

theorem switch_tier_request_witness:
  "handleSwitchTier \<lparr>arg_tier = ''tier2'', arg_reason = None\<rparr> default_server november =
     Some (SwitchInvalidTier ''tier2'' TwoTier [''primary'', ''critical''], default_server)
   \<and> handleSwitchTier \<lparr>arg_tier = ''critical'', arg_reason = Some ''big refactor''\<rparr>
         default_server november =
       Some (SwitchedFromTo ''primary'' ''critical'' (Some ''big refactor''),
             default_server\<lparr>state := (state default_server)\<lparr>currentTier := ''critical''\<rparr>,
                memoryTracker := with_entry (memoryTracker default_server)
                  \<lparr>me_timestamp = ''2026-11-03T10:00:00.000Z'', task_pattern = ''general'',
                   tier_used = ''critical'', success = True,
                   me_context = Some (Some (UserReason ''big refactor''))\<rparr>\<rparr>)
   \<and> entries (last (sessions (data (with_entry (memoryTracker default_server)
         \<lparr>me_timestamp = ''2026-11-03T10:00:00.000Z'', task_pattern = ''general'',
          tier_used = ''critical'', success = True,
          me_context = Some (Some (UserReason ''big refactor''))\<rparr>))))
       = [\<lparr>me_timestamp = ''2026-11-03T10:00:00.000Z'', task_pattern = ''general'',
           tier_used = ''critical'', success = True,
           me_context = Some (Some (UserReason ''big refactor''))\<rparr>]"
proof -
  let ?e = "\<lparr>me_timestamp = ''2026-11-03T10:00:00.000Z'', task_pattern = ''general'',
             tier_used = ''critical'', success = True,
             me_context = Some (Some (UserReason ''big refactor''))\<rparr>"
  have s: "strategy (ruleEngine default_server) = TwoTier"
    "state_strategy (state default_server) = TwoTier"
    "currentTier (state default_server) = ''primary''"
    by (simp_all add: default_server_def createServer_def)
  have inv: "\<not> isValidTier (strategy (ruleEngine default_server))
               (arg_tier \<lparr>arg_tier = ''tier2'', arg_reason = None\<rparr>)"
    by (simp add: s isValidTier_def getAvailableTiers_def)
  have val: "isValidTier (strategy (ruleEngine default_server))
               (arg_tier \<lparr>arg_tier = ''critical'', arg_reason = Some ''big refactor''\<rparr>)"
    by (simp add: s isValidTier_def getAvailableTiers_def)
  have p: "extractPattern (''tier_switch:'' @ ''primary'' @ ''->'' @ ''critical'') = ''general''"
    by code_simp
  have old: "entries (last (sessions (data (memoryTracker default_server)))) = []"
    "maxEntriesPerSession (memoryTracker default_server) = 100"
    by (simp_all add: default_server_def createServer_def new_tracker_def startNewSession_def
          Let_def prune_oldest_takeLast takeLast_def)
  from switch_tier_request [of default_server "\<lparr>arg_tier = ''tier2'', arg_reason = None\<rparr>"
      november "[[]]"] inv
  have one: "handleSwitchTier \<lparr>arg_tier = ''tier2'', arg_reason = None\<rparr> default_server november =
     Some (SwitchInvalidTier ''tier2'' TwoTier [''primary'', ''critical''], default_server)"
    by (simp add: s getAvailableTiers_def)
  note T = switch_tier_request [of default_server
      "\<lparr>arg_tier = ''critical'', arg_reason = Some ''big refactor''\<rparr>" november "[[]]"]
  from T val tracks_default_server
  have two: "handleSwitchTier \<lparr>arg_tier = ''critical'', arg_reason = Some ''big refactor''\<rparr>
         default_server november =
       Some (SwitchedFromTo ''primary'' ''critical'' (Some ''big refactor''),
             default_server\<lparr>state := (state default_server)\<lparr>currentTier := ''critical''\<rparr>,
                memoryTracker := with_entry (memoryTracker default_server) ?e\<rparr>)"
    using p by (simp add: s november_def)
  from T val tracks_default_server
  have "entries (last (sessions (data (with_entry (memoryTracker default_server) ?e))))
      = takeLast (maxEntriesPerSession (memoryTracker default_server))
          (entries (last (sessions (data (memoryTracker default_server)))) @ [?e])"
    using p by (simp add: s november_def)
  then have three: "entries (last (sessions (data (with_entry (memoryTracker default_server) ?e))))
      = [?e]"
    by (simp add: old takeLast_def)
  from one two three show ?thesis by blast
qed

subsection \<open>orchestrate\<close>

lemma apply_routing_returns:
  assumes "tracks (memoryTracker ctx) h"
  shows "\<exists>oc ctx'. apply_routing ctx clock task autoSwitch target r blocked =
           Some (Routed \<lparr>targetTier = target, routing_reason = r, budget_fallback = blocked,
                         outcome = oc\<rparr>, ctx')"
proof (cases "target \<noteq> currentTier (state ctx) \<and> autoSwitch \<and> autoMode (state ctx)")
  case True
  from switchTier_tracks [OF assms, of clock target "Some r"]
  obtain mt where s: "switchTier ctx clock target (Some r) =
        Some (ctx\<lparr>state := (state ctx)\<lparr>currentTier := target\<rparr>, memoryTracker := mt\<rparr>)"
    and t: "tracks mt (butlast h @ [last h @
                 [entry_of (now_iso clock) (''tier_switch:'' @ currentTier (state ctx) @ ''->'' @ target)
                    target True (Some (Some r))]])"
    by blast
  from tracks_recordTask [OF t, of "now_iso clock" task target True "Some (Some r)"]
  obtain mt' where "recordTask mt (now_iso clock) task target True (Some (Some r)) = Some mt'"
    by blast
  with True s show ?thesis by (simp add: apply_routing_def Let_def)
next
  case False
  then show ?thesis by (auto simp: apply_routing_def Let_def)
qed

text \<open>The budget gate as the forced branch and the rule-match branch apply it.\<close>

lemma budget_gate:
  assumes "tracks (memoryTracker ctx) h"
      and "arg_task args = Some task" and "\<not> list_all is_space task"
      and "is_blocked (usage_status ctx clock)"
  shows "(\<forall>f. force_tier args = Some f \<and> f \<noteq> []
              \<and> isValidTier (strategy (ruleEngine ctx)) f \<and> f \<in> set highCostTiers
          \<longrightarrow> (\<exists>oc ctx'. handleOrchestrate args ctx clock =
                  Some (Routed \<lparr>targetTier = fallbackTier ctx,
                                routing_reason = BudgetForcedFallback,
                                budget_fallback = True, outcome = oc\<rparr>, ctx')))
       \<and> (\<forall>m. (force_tier args = None \<or> force_tier args = Some [])
              \<and> fst (classifyTask (ruleEngine ctx) (Some (getRecommendedTier (memoryTracker ctx)))
                      task (currentTier (state ctx)) (now_ms clock)) = Some m
              \<and> target_tier m \<in> set highCostTiers
          \<longrightarrow> (\<exists>oc ctx'. handleOrchestrate args ctx clock =
                  Some (Routed \<lparr>targetTier = fallbackTier ctx,
                                routing_reason = RuleBudgetBlocked (reason m),
                                budget_fallback = True, outcome = oc\<rparr>, ctx')))
       \<and> fallbackTier ctx =
           (case state_strategy (state ctx) of TwoTier \<Rightarrow> ''primary'' | ThreeTier \<Rightarrow> ''tier1'')"
proof -
  have a: "\<exists>oc ctx'. handleOrchestrate args ctx clock =
                  Some (Routed \<lparr>targetTier = fallbackTier ctx,
                                routing_reason = BudgetForcedFallback,
                                budget_fallback = True, outcome = oc\<rparr>, ctx')"
    if "force_tier args = Some f" "f \<noteq> []" "isValidTier (strategy (ruleEngine ctx)) f"
       "f \<in> set highCostTiers" for f
  proof -
    have "handleOrchestrate args ctx clock =
            apply_routing ctx clock task
              (case auto_switch args of None \<Rightarrow> True | Some b \<Rightarrow> b)
              (fallbackTier ctx) BudgetForcedFallback True"
      using assms(2,3,4) that by (simp add: handleOrchestrate_def Let_def)
    then show ?thesis using apply_routing_returns [OF assms(1)] by simp
  qed
  have b: "\<exists>oc ctx'. handleOrchestrate args ctx clock =
                  Some (Routed \<lparr>targetTier = fallbackTier ctx,
                                routing_reason = RuleBudgetBlocked (reason m),
                                budget_fallback = True, outcome = oc\<rparr>, ctx')"
    if nf: "force_tier args = None \<or> force_tier args = Some []"
      and cl: "fst (classifyTask (ruleEngine ctx) (Some (getRecommendedTier (memoryTracker ctx)))
                      task (currentTier (state ctx)) (now_ms clock)) = Some m"
      and hc: "target_tier m \<in> set highCostTiers" for m
  proof -
    obtain re' where c: "classifyTask (ruleEngine ctx)
        (Some (getRecommendedTier (memoryTracker ctx))) task (currentTier (state ctx))
        (now_ms clock) = (Some m, re')"
      using cl by (cases "classifyTask (ruleEngine ctx)
        (Some (getRecommendedTier (memoryTracker ctx))) task (currentTier (state ctx))
        (now_ms clock)") auto
    have forced: "(case force_tier args of None \<Rightarrow> None
                   | Some f \<Rightarrow> if f = [] then None else Some f) = None"
      using nf by auto
    have "handleOrchestrate args ctx clock =
            apply_routing (ctx\<lparr>ruleEngine := re'\<rparr>) clock task
              (case auto_switch args of None \<Rightarrow> True | Some b \<Rightarrow> b)
              (fallbackTier ctx) (RuleBudgetBlocked (reason m)) True"
      using assms(2,3,4) hc by (simp add: handleOrchestrate_def Let_def forced c)
    moreover have "tracks (memoryTracker (ctx\<lparr>ruleEngine := re'\<rparr>)) h"
      using assms(1) by simp
    ultimately show ?thesis using apply_routing_returns by simp
  qed
  have c: "fallbackTier ctx =
           (case state_strategy (state ctx) of TwoTier \<Rightarrow> ''primary'' | ThreeTier \<Rightarrow> ''tier1'')"
    by (cases "state_strategy (state ctx)") (simp_all add: fallbackTier_def)
  from a b c show ?thesis by blast
qed

lemma blocked_server_is_blocked: "is_blocked (usage_status blocked_server november)"
proof -
  have u: "usage_status blocked_server november =
      getStatus (record_all empty_usage [usage_call (2026, 11) ''critical'' 105]) (2026, 11) 100
        (Some default_alerts)"
    by (simp add: usage_status_def budget_in_force_def blocked_server_def default_server_def
          createServer_def november_def default_budget_def Let_def)
  have f: "fl 105 = 105" by (simp add: fl_numeral)
  have t: "triggered_alerts (getStatus (record_all empty_usage
              [usage_call (2026, 11) ''critical'' 105]) (2026, 11) 100 (Some default_alerts))
      = [\<lparr>percent = 100, action = ''block_high_tier''\<rparr>,
         \<lparr>percent = 95, action = ''require_confirmation''\<rparr>,
         \<lparr>percent = 80, action = ''notify_user''\<rparr>,
         \<lparr>percent = 50, action = ''log_warning''\<rparr>]"
    by (simp add: getStatus_single_call(2) f percentUsed_105_of_100 default_alerts_def)
  show ?thesis
    unfolding u by (simp add: getStatus_single_call(3) t f percentUsed_105_of_100)
qed

text \<open>
  C1, where the code leaves it. When no tier is forced and classification returns no
  match, \<open>handleOrchestrate\<close> keeps the current tier and reports that it stays on
  it, with the reason \<open>no rule match\<close> and no budget fallback, whatever the status
  of the budget: the gate that the forced branch and the rule-match branch apply is
  not applied here. So a server whose current tier is a high-cost tier answers with
  that tier also when the status reports \<open>is_blocked\<close>.
\<close>

theorem no_match_keeps_current_tier:
  assumes "arg_task args = Some task" and "\<not> list_all is_space task"
      and "force_tier args = None \<or> force_tier args = Some []"
      and "fst (classifyTask (ruleEngine ctx) (Some (getRecommendedTier (memoryTracker ctx)))
                  task (currentTier (state ctx)) (now_ms clock)) = None"
  shows "handleOrchestrate args ctx clock =
           Some (Routed \<lparr>targetTier = currentTier (state ctx), routing_reason = NoRuleMatch,
                         budget_fallback = False, outcome = StayingOnTier\<rparr>,
                 ctx\<lparr>ruleEngine :=
                       snd (classifyTask (ruleEngine ctx)
                              (Some (getRecommendedTier (memoryTracker ctx)))
                              task (currentTier (state ctx)) (now_ms clock))\<rparr>)"
proof -
  obtain re' where c: "classifyTask (ruleEngine ctx)
      (Some (getRecommendedTier (memoryTracker ctx))) task (currentTier (state ctx))
      (now_ms clock) = (None, re')"
    using assms(4) by (cases "classifyTask (ruleEngine ctx)
      (Some (getRecommendedTier (memoryTracker ctx))) task (currentTier (state ctx))
      (now_ms clock)") auto
  have forced: "(case force_tier args of None \<Rightarrow> None
                 | Some f \<Rightarrow> if f = [] then None else Some f) = None"
    using assms(3) by auto
  show ?thesis
    using assms(1,2) by (simp add: handleOrchestrate_def Let_def forced c apply_routing_def)
qed

text \<open>
  Witness of C1: the 2-tier server of the default configuration is on \<open>critical\<close>
  and has spent 105 of its limit of 100, so the status reports \<open>is_blocked\<close>; the
  task \<open>hello there\<close>, which nothing classifies, is answered with \<open>critical\<close>, a
  high-cost tier, not with \<open>primary\<close>.
\<close>

theorem no_match_keeps_current_tier_witness:
  "is_blocked (usage_status blocked_server november)
   \<and> ''critical'' \<in> set highCostTiers
   \<and> fallbackTier blocked_server = ''primary''
   \<and> map_option fst (handleOrchestrate
        \<lparr>arg_task = Some ''hello there'', force_tier = None, auto_switch = None\<rparr>
        blocked_server november) =
       Some (Routed \<lparr>targetTier = ''critical'', routing_reason = NoRuleMatch,
                     budget_fallback = False, outcome = StayingOnTier\<rparr>)"
proof -
  let ?a = "\<lparr>arg_task = Some ''hello there'', force_tier = None, auto_switch = None\<rparr>"
  have nb: "\<not> list_all is_space ''hello there''" by code_simp
  have cl: "fst (classifyTask (ruleEngine blocked_server)
                   (Some (getRecommendedTier (memoryTracker blocked_server)))
                   ''hello there'' (currentTier (state blocked_server))
                   (now_ms november)) = None"
    by code_simp
  have cur: "currentTier (state blocked_server) = ''critical''"
    by (simp add: blocked_server_def)
  have fb: "fallbackTier blocked_server = ''primary''"
    by (simp add: fallbackTier_def blocked_server_def default_server_def createServer_def)
  from no_match_keeps_current_tier [of ?a "''hello there''" blocked_server november, OF _ nb _ cl]
  have "map_option fst (handleOrchestrate ?a blocked_server november) =
       Some (Routed \<lparr>targetTier = ''critical'', routing_reason = NoRuleMatch,
                     budget_fallback = False, outcome = StayingOnTier\<rparr>)"
    by (simp add: cur)
  with blocked_server_is_blocked fb show ?thesis by (simp add: highCostTiers_def)
qed

section \<open>set\_budget\<close>

text \<open>
  C10, as the code has it. For every \<open>set_budget\<close> call with a valid limit and a valid
  alert percentage (absent, which means 80, or between 0 and 100), the only field of
  the stored budget that changes is \<open>monthly_limit_usd\<close>, set to the given limit;
  the stored \<open>alert_thresholds\<close> are unchanged (empty when no budget was stored
  before). The thresholds shown in the response appear in the response only: the
  status that a later \<open>get_status\<close> or \<open>orchestrate\<close> computes uses the stored ones.
\<close>

theorem set_budget_frame:
  fixes args ctx clock clock'
  defines "p \<equiv> (case alert_threshold_percent args of None \<Rightarrow> 80 | Some q \<Rightarrow> q)"
  assumes "0 < arg_monthly_limit_usd args" and "0 \<le> p" and "p \<le> 100"
  shows "snd (handleSetBudget args ctx clock) =
           ctx\<lparr>budget := Some \<lparr>monthly_limit_usd = arg_monthly_limit_usd args,
                                alert_thresholds = (case budget ctx of None \<Rightarrow> []
                                                    | Some b \<Rightarrow> alert_thresholds b)\<rparr>\<rparr>
       \<and> fst (handleSetBudget args ctx clock) =
           BudgetUpdated (arg_monthly_limit_usd args) (shown_thresholds p)
             (getStatus (costTracker ctx) (month_key clock) (arg_monthly_limit_usd args)
                (Some (shown_thresholds p)))
       \<and> usage_status (snd (handleSetBudget args ctx clock)) clock' =
           getStatus (costTracker ctx) (month_key clock') (arg_monthly_limit_usd args)
             (Some (case budget ctx of None \<Rightarrow> [] | Some b \<Rightarrow> alert_thresholds b))"
proof -
  have pv: "(case alert_threshold_percent args of None \<Rightarrow> 80 | Some q \<Rightarrow> q) = p"
    by (simp add: p_def)
  have ok: "0 \<le> p \<and> p \<le> 100"
    using assms by simp
  have upd: "(case budget ctx of
                None \<Rightarrow> \<lparr>monthly_limit_usd = arg_monthly_limit_usd args, alert_thresholds = []\<rparr>
              | Some b \<Rightarrow> b\<lparr>monthly_limit_usd := arg_monthly_limit_usd args\<rparr>) =
             \<lparr>monthly_limit_usd = arg_monthly_limit_usd args,
              alert_thresholds = (case budget ctx of None \<Rightarrow> [] | Some b \<Rightarrow> alert_thresholds b)\<rparr>"
    by (cases "budget ctx") auto
  have s: "snd (handleSetBudget args ctx clock) =
           ctx\<lparr>budget := Some \<lparr>monthly_limit_usd = arg_monthly_limit_usd args,
                                alert_thresholds = (case budget ctx of None \<Rightarrow> []
                                                    | Some b \<Rightarrow> alert_thresholds b)\<rparr>\<rparr>"
    using assms(2) ok by (simp add: handleSetBudget_def Let_def pv upd)
  have f: "fst (handleSetBudget args ctx clock) =
           BudgetUpdated (arg_monthly_limit_usd args) (shown_thresholds p)
             (getStatus (costTracker ctx) (month_key clock) (arg_monthly_limit_usd args)
                (Some (shown_thresholds p)))"
    using assms(2) ok by (simp add: handleSetBudget_def Let_def pv)
  have u: "usage_status (snd (handleSetBudget args ctx clock)) clock' =
           getStatus (costTracker ctx) (month_key clock') (arg_monthly_limit_usd args)
             (Some (case budget ctx of None \<Rightarrow> [] | Some b \<Rightarrow> alert_thresholds b))"
    unfolding s by (simp add: usage_status_def budget_in_force_def Let_def)
  from s f u show ?thesis by blast
qed

text \<open>Witness of C10: limit 10 and alert percentage 70, on the default server (its
  four thresholds stay) and on a server without a budget (no threshold is stored, so
  none is triggered afterwards).\<close>

theorem set_budget_frame_witness:
  "budget (snd (handleSetBudget \<lparr>arg_monthly_limit_usd = 10, alert_threshold_percent = Some 70\<rparr>
                  default_server november)) =
     Some \<lparr>monthly_limit_usd = 10, alert_thresholds = default_alerts\<rparr>
   \<and> triggered_alerts (usage_status
        (snd (handleSetBudget \<lparr>arg_monthly_limit_usd = 10, alert_threshold_percent = Some 70\<rparr>
                (createServer TwoTier None None ''t0'') november)) november) = []"
proof -
  let ?args = "\<lparr>arg_monthly_limit_usd = 10, alert_threshold_percent = Some 70\<rparr>"
  have h1: "0 < arg_monthly_limit_usd ?args" by simp
  have h2: "0 \<le> (case alert_threshold_percent ?args of None \<Rightarrow> 80 | Some q \<Rightarrow> q)" by simp
  have h3: "(case alert_threshold_percent ?args of None \<Rightarrow> 80 | Some q \<Rightarrow> q) \<le> 100" by simp
  have b: "budget default_server = Some default_budget"
    by (simp add: default_server_def createServer_def)
  have a: "alert_thresholds default_budget = default_alerts" by (simp add: default_budget_def)
  have n: "budget (createServer TwoTier None None ''t0'') = None"
    by (simp add: createServer_def)
  have one: "budget (snd (handleSetBudget ?args default_server november)) =
     Some \<lparr>monthly_limit_usd = 10, alert_thresholds = default_alerts\<rparr>"
    using set_budget_frame [OF h1 h2 h3, of default_server november november]
    by (simp add: b a)
  note T = set_budget_frame [OF h1 h2 h3, of "createServer TwoTier None None ''t0''" november
      november, unfolded n option.case]
  from T have "usage_status
          (snd (handleSetBudget ?args (createServer TwoTier None None ''t0'') november)) november =
        getStatus (costTracker (createServer TwoTier None None ''t0'')) (month_key november)
          (arg_monthly_limit_usd ?args) (Some [])"
    by blast
  then have two: "triggered_alerts (usage_status
        (snd (handleSetBudget ?args (createServer TwoTier None None ''t0'') november)) november) = []"
    by (simp add: getStatus_fields)
  from one two show ?thesis by simp
qed

text \<open>Counterexample to C10 as stated: limit 50 is valid, the alert percentage 150 is
  not; the call is refused and the stored limit stays 100.\<close>

theorem set_budget_valid_limit_counterexample:
  "0 < arg_monthly_limit_usd \<lparr>arg_monthly_limit_usd = 50, alert_threshold_percent = Some 150\<rparr>
   \<and> fst (handleSetBudget \<lparr>arg_monthly_limit_usd = 50, alert_threshold_percent = Some 150\<rparr>
            default_server november) = PercentOutOfRange
   \<and> map_option monthly_limit_usd
        (budget (snd (handleSetBudget
           \<lparr>arg_monthly_limit_usd = 50, alert_threshold_percent = Some 150\<rparr>
           default_server november))) = Some 100"
  by (simp add: handleSetBudget_def default_server_def createServer_def default_budget_def)


end
